theory Spec2Isabelle
  imports Complex_Main "HOL-Library.Multiset"
begin

section \<open>Plane slicing of a triangle mesh (Slicer, EXY SLICE VER 3)\<close>

text \<open>
  A shallow embedding of the class \<open>Slicer\<close>: \<open>getSideOfPlane\<close>, \<open>getVertexData\<close>,
  \<open>addTriangle\<close>, \<open>splitTriangle\<close>, \<open>interpolateVertex\<close>, \<open>generateCap\<close>,
  \<open>createMeshObject\<close>, \<open>sliceMesh\<close> and \<open>update\<close>.

  JavaScript numbers are modelled as \<^typ>\<open>real\<close>: arithmetic is exact and there is no
  NaN, no infinity and no rounding. Indices are natural numbers. The arrays the source
  mutates in place (\<open>upperVertices\<close>, \<open>upperIndices\<close>, \<open>upperContour\<close> and their lower
  counterparts) are the fields of a record that every operation takes and returns.
  The attribute accessors of the host engine (\<open>positions.get(index)\<close>) are parameters:
  functions from an index to the stored value.
\<close>

subsection \<open>Data\<close>

type_synonym vec3 = "real \<times> real \<times> real"
type_synonym vec2 = "real \<times> real"

text \<open>\<open>interface SliceVertex { position; normal?; texCoord? }\<close>\<close>

record SliceVertex =
  position :: vec3
  normal :: "vec3 option"
  texCoord :: "vec2 option"

text \<open>\<open>interface ContourPoint { position; edgeVerts }\<close>; the field \<open>position\<close> is named
  \<open>cposition\<close> here, as a record field name belongs to one record.\<close>

record ContourPoint =
  cposition :: vec3
  edgeVerts :: "nat \<times> nat"

text \<open>The six arrays local to one call of \<open>sliceMesh\<close>.\<close>

record hulls =
  upperVertices :: "SliceVertex list"
  lowerVertices :: "SliceVertex list"
  upperIndices :: "nat list"
  lowerIndices :: "nat list"
  upperContour :: "ContourPoint list"
  lowerContour :: "ContourPoint list"

definition emptyHulls :: hulls where
  "emptyHulls = \<lparr>upperVertices = [], lowerVertices = [], upperIndices = [],
     lowerIndices = [], upperContour = [], lowerContour = []\<rparr>"

text \<open>The elements \<open>{ v, d, i }\<close> of the array that \<open>splitTriangle\<close> sorts.\<close>

record sortItem =
  sv :: SliceVertex
  sd :: real
  si :: nat

text \<open>The four branches of the \<open>if\<close> chain on \<open>sidesSum\<close> in \<open>sliceMesh\<close>.\<close>

datatype topology = AllAbove | AllBelow | OnPlane | Straddle

subsection \<open>Vertices and the plane\<close>

definition getVertexData ::
  "nat \<Rightarrow> (nat \<Rightarrow> vec3) \<Rightarrow> (nat \<Rightarrow> vec3) option \<Rightarrow> (nat \<Rightarrow> vec2) option \<Rightarrow> SliceVertex" where
  "getVertexData index positions normals texCoords =
     \<lparr>position = positions index,
      normal = (case normals of None \<Rightarrow> None | Some nrm \<Rightarrow> Some (nrm index)),
      texCoord = (case texCoords of None \<Rightarrow> None | Some uv \<Rightarrow> Some (uv index))\<rparr>"

fun getSideOfPlane :: "vec3 \<Rightarrow> vec3 \<Rightarrow> vec3 \<Rightarrow> real" where
  "getSideOfPlane (nx, ny, nz) (x, y, z) (px, py, pz) =
     nx * (x - px) + ny * (y - py) + nz * (z - pz)"

text \<open>\<open>Math.sign\<close> is \<^const>\<open>sgn\<close>; the chain tests \<open>sidesSum\<close> against 3, -3 and 0 in
  this order.\<close>

definition classify :: "real \<Rightarrow> real \<Rightarrow> real \<Rightarrow> topology" where
  "classify d0 d1 d2 =
     (let side0 = sgn d0; side1 = sgn d1; side2 = sgn d2;
          sidesSum = side0 + side1 + side2
      in if sidesSum = 3 then AllAbove
         else if sidesSum = - 3 then AllBelow
         else if sidesSum = 0 \<and> (side0 = 0 \<or> side1 = 0 \<or> side2 = 0) then OnPlane
         else Straddle)"

subsection \<open>Emitting triangles\<close>

fun addTriangle ::
  "SliceVertex list \<times> nat list \<Rightarrow> SliceVertex \<Rightarrow> SliceVertex \<Rightarrow> SliceVertex
     \<Rightarrow> SliceVertex list \<times> nat list" where
  "addTriangle (vertices, indices) v0 v1 v2 =
     (let baseIndex = length vertices
      in (vertices @ [v0, v1, v2], indices @ [baseIndex, baseIndex + 1, baseIndex + 2]))"

text \<open>\<open>addTriangle\<close> called on the upper, respectively the lower, pair of arrays.\<close>

definition addUpper :: "hulls \<Rightarrow> SliceVertex \<Rightarrow> SliceVertex \<Rightarrow> SliceVertex \<Rightarrow> hulls" where
  "addUpper h v0 v1 v2 =
     (case addTriangle (upperVertices h, upperIndices h) v0 v1 v2 of
        (vs, ixs) \<Rightarrow> h\<lparr>upperVertices := vs, upperIndices := ixs\<rparr>)"

definition addLower :: "hulls \<Rightarrow> SliceVertex \<Rightarrow> SliceVertex \<Rightarrow> SliceVertex \<Rightarrow> hulls" where
  "addLower h v0 v1 v2 =
     (case addTriangle (lowerVertices h, lowerIndices h) v0 v1 v2 of
        (vs, ixs) \<Rightarrow> h\<lparr>lowerVertices := vs, lowerIndices := ixs\<rparr>)"

text \<open>\<open>lowerContour.push(p, q); upperContour.push(p, q)\<close>, in either order.\<close>

definition pushContours :: "hulls \<Rightarrow> ContourPoint \<Rightarrow> ContourPoint \<Rightarrow> hulls" where
  "pushContours h p q =
     h\<lparr>upperContour := upperContour h @ [p, q], lowerContour := lowerContour h @ [p, q]\<rparr>"

subsection \<open>Interpolation\<close>

fun lerp3 :: "vec3 \<Rightarrow> vec3 \<Rightarrow> real \<Rightarrow> vec3" where
  "lerp3 (a0, a1, a2) (b0, b1, b2) t =
     (a0 + (b0 - a0) * t, a1 + (b1 - a1) * t, a2 + (b2 - a2) * t)"

fun lerp2 :: "vec2 \<Rightarrow> vec2 \<Rightarrow> real \<Rightarrow> vec2" where
  "lerp2 (a0, a1) (b0, b1) t = (a0 + (b0 - a0) * t, a1 + (b1 - a1) * t)"

text \<open>The normal is divided by its length unless that length is zero.\<close>

fun normalize :: "vec3 \<Rightarrow> vec3" where
  "normalize (x, y, z) =
     (let len = sqrt (x\<^sup>2 + y\<^sup>2 + z\<^sup>2)
      in if len > 0 then (x / len, y / len, z / len) else (x, y, z))"

definition interpolateVertex :: "SliceVertex \<Rightarrow> SliceVertex \<Rightarrow> real \<Rightarrow> SliceVertex" where
  "interpolateVertex v1 v2 t =
     \<lparr>position = lerp3 (position v1) (position v2) t,
      normal = (case (normal v1, normal v2) of
                  (Some n1, Some n2) \<Rightarrow> Some (normalize (lerp3 n1 n2 t))
                | _ \<Rightarrow> None),
      texCoord = (case (texCoord v1, texCoord v2) of
                    (Some t1, Some t2) \<Rightarrow> Some (lerp2 t1 t2 t)
                  | _ \<Rightarrow> None)\<rparr>"

subsection \<open>Splitting a triangle\<close>

text \<open>
  The body of \<open>splitTriangle\<close> after \<open>const [vMin, vMid, vMax] = verts\<close>: the 2-1 and the
  1-2 configuration, each with its two orientations.
\<close>

definition splitSorted :: "sortItem \<Rightarrow> sortItem \<Rightarrow> sortItem \<Rightarrow> hulls \<Rightarrow> hulls" where
  "splitSorted vMin vMid vMax h =
     (if sgn (sd vMin) = sgn (sd vMid) then
        (let v2Same = vMid; v1Diff = vMax;
             t1 = \<bar>sd vMin\<bar> / (\<bar>sd vMin\<bar> + \<bar>sd v1Diff\<bar>);
             t2 = \<bar>sd v2Same\<bar> / (\<bar>sd v2Same\<bar> + \<bar>sd v1Diff\<bar>);
             vInt1 = interpolateVertex (sv vMin) (sv v1Diff) t1;
             vInt2 = interpolateVertex (sv v2Same) (sv v1Diff) t2;
             contourPt1 = \<lparr>cposition = position vInt1, edgeVerts = (si vMin, si v1Diff)\<rparr>;
             contourPt2 = \<lparr>cposition = position vInt2, edgeVerts = (si v2Same, si v1Diff)\<rparr>
         in if sd vMin < 0 then
              pushContours
                (addUpper
                  (addLower (addLower h (sv vMin) (sv v2Same) vInt1) (sv v2Same) vInt2 vInt1)
                  vInt1 vInt2 (sv v1Diff))
                contourPt1 contourPt2
            else
              pushContours
                (addLower
                  (addUpper (addUpper h (sv vMin) (sv v2Same) vInt1) (sv v2Same) vInt2 vInt1)
                  vInt1 vInt2 (sv v1Diff))
                contourPt1 contourPt2)
      else
        (let v1Same = vMin; v2Diff = vMid;
             t1 = \<bar>sd v1Same\<bar> / (\<bar>sd v1Same\<bar> + \<bar>sd v2Diff\<bar>);
             t2 = \<bar>sd v1Same\<bar> / (\<bar>sd v1Same\<bar> + \<bar>sd vMax\<bar>);
             vInt1 = interpolateVertex (sv v1Same) (sv v2Diff) t1;
             vInt2 = interpolateVertex (sv v1Same) (sv vMax) t2;
             contourPt1 = \<lparr>cposition = position vInt1, edgeVerts = (si v1Same, si v2Diff)\<rparr>;
             contourPt2 = \<lparr>cposition = position vInt2, edgeVerts = (si v1Same, si vMax)\<rparr>
         in if sd v1Same < 0 then
              pushContours
                (addUpper
                  (addUpper (addLower h (sv v1Same) vInt1 vInt2) vInt1 (sv v2Diff) (sv vMax))
                  vInt1 (sv vMax) vInt2)
                contourPt1 contourPt2
            else
              pushContours
                (addLower
                  (addLower (addUpper h (sv v1Same) vInt1 vInt2) vInt1 (sv v2Diff) (sv vMax))
                  vInt1 (sv vMax) vInt2)
                contourPt1 contourPt2))"

text \<open>
  \<open>[...].sort((a, b) => a.d - b.d)\<close> is a stable ascending sort by \<open>d\<close>, as
  \<^const>\<open>sort_key\<close> is. The sorted array has three elements, read by position.
\<close>

definition splitTriangle ::
  "SliceVertex \<Rightarrow> SliceVertex \<Rightarrow> SliceVertex \<Rightarrow> real \<Rightarrow> real \<Rightarrow> real
     \<Rightarrow> hulls \<Rightarrow> nat \<Rightarrow> nat \<Rightarrow> nat \<Rightarrow> hulls" where
  "splitTriangle v0 v1 v2 d0 d1 d2 h i0 i1 i2 =
     (let verts = sort_key sd
            [\<lparr>sv = v0, sd = d0, si = i0\<rparr>, \<lparr>sv = v1, sd = d1, si = i1\<rparr>,
             \<lparr>sv = v2, sd = d2, si = i2\<rparr>];
          vMin = verts ! 0; vMid = verts ! 1; vMax = verts ! 2
      in splitSorted vMin vMid vMax h)"

subsection \<open>The triangle loop of \<open>sliceMesh\<close>\<close>

text \<open>The body of the loop for the triangle with indices \<open>i0\<close>, \<open>i1\<close>, \<open>i2\<close>.\<close>

definition processTriangle ::
  "vec3 \<Rightarrow> vec3 \<Rightarrow> (nat \<Rightarrow> vec3) \<Rightarrow> (nat \<Rightarrow> vec3) option \<Rightarrow> (nat \<Rightarrow> vec2) option
     \<Rightarrow> nat \<Rightarrow> nat \<Rightarrow> nat \<Rightarrow> hulls \<Rightarrow> hulls" where
  "processTriangle slicePlaneNormal worldPos positions normals texCoords i0 i1 i2 h =
     (let v0 = getVertexData i0 positions normals texCoords;
          v1 = getVertexData i1 positions normals texCoords;
          v2 = getVertexData i2 positions normals texCoords;
          d0 = getSideOfPlane slicePlaneNormal (position v0) worldPos;
          d1 = getSideOfPlane slicePlaneNormal (position v1) worldPos;
          d2 = getSideOfPlane slicePlaneNormal (position v2) worldPos
      in case classify d0 d1 d2 of
           AllAbove \<Rightarrow> addUpper h v0 v1 v2
         | AllBelow \<Rightarrow> addLower h v0 v1 v2
         | OnPlane \<Rightarrow> addUpper h v0 v1 v2
         | Straddle \<Rightarrow> splitTriangle v0 v1 v2 d0 d1 d2 h i0 i1 i2)"

text \<open>
  \<open>for (let i = 0; i < indices.length; i += 3)\<close>. When the length of the index array is
  not a multiple of three the last round reads \<open>indices[i + 1]\<close> or \<open>indices[i + 2]\<close>
  past the end and passes \<open>undefined\<close> to the engine's accessor; the model stops with
  an error there.
\<close>

datatype sliceError = IndexPastEnd

fun processTriangles ::
  "vec3 \<Rightarrow> vec3 \<Rightarrow> (nat \<Rightarrow> vec3) \<Rightarrow> (nat \<Rightarrow> vec3) option \<Rightarrow> (nat \<Rightarrow> vec2) option
     \<Rightarrow> nat list \<Rightarrow> hulls \<Rightarrow> sliceError + hulls" where
  "processTriangles n wp ps ns ts [] h = Inr h"
| "processTriangles n wp ps ns ts (i0 # i1 # i2 # rest) h =
     processTriangles n wp ps ns ts rest (processTriangle n wp ps ns ts i0 i1 i2 h)"
| "processTriangles n wp ps ns ts [i0] h = Inl IndexPastEnd"
| "processTriangles n wp ps ns ts [i0, i1] h = Inl IndexPastEnd"

subsection \<open>The cap\<close>

definition epsilon :: real where
  "epsilon = 1 / 10000"

text \<open>The predicate of \<open>uniqueContour.some(...)\<close>.\<close>

definition isDuplicateOf :: "ContourPoint \<Rightarrow> ContourPoint \<Rightarrow> bool" where
  "isDuplicateOf pt existing =
     (case (cposition existing, cposition pt) of
        ((ex, ey, ez), (px, py, pz)) \<Rightarrow>
          (let dx = ex - px; dy = ey - py; dz = ez - pz
           in dx * dx + dy * dy + dz * dz < epsilon * epsilon))"

text \<open>\<open>for (const pt of contour)\<close>, with \<open>uniqueContour\<close> as the accumulator.\<close>

fun dedupLoop :: "ContourPoint list \<Rightarrow> ContourPoint list \<Rightarrow> ContourPoint list" where
  "dedupLoop [] uniqueContour = uniqueContour"
| "dedupLoop (pt # rest) uniqueContour =
     dedupLoop rest
       (if list_ex (isDuplicateOf pt) uniqueContour then uniqueContour
        else uniqueContour @ [pt])"

definition dedupContour :: "ContourPoint list \<Rightarrow> ContourPoint list" where
  "dedupContour contour = dedupLoop contour []"

text \<open>The loop that sums the positions into \<open>centroid\<close>, and the three divisions.\<close>

fun addPosition :: "ContourPoint \<Rightarrow> vec3 \<Rightarrow> vec3" where
  "addPosition pt (cx, cy, cz) =
     (case cposition pt of (x, y, z) \<Rightarrow> (cx + x, cy + y, cz + z))"

definition centroidOf :: "ContourPoint list \<Rightarrow> vec3" where
  "centroidOf uniqueContour =
     (case fold addPosition uniqueContour (0, 0, 0) of
        (cx, cy, cz) \<Rightarrow>
          (cx / real (length uniqueContour), cy / real (length uniqueContour),
           cz / real (length uniqueContour)))"

fun capNormalOf :: "vec3 \<Rightarrow> bool \<Rightarrow> vec3" where
  "capNormalOf (nx, ny, nz) isUpper = (if isUpper then (nx, ny, nz) else (- nx, - ny, - nz))"

definition capVertex :: "vec3 \<Rightarrow> vec3 \<Rightarrow> SliceVertex" where
  "capVertex pos capNormal =
     \<lparr>position = pos, normal = Some capNormal, texCoord = Some (1 / 2, 1 / 2)\<rparr>"

text \<open>One round of the fan loop: the three indices pushed for \<open>i\<close>.\<close>

definition fanTriangle :: "bool \<Rightarrow> nat \<Rightarrow> nat \<Rightarrow> nat \<Rightarrow> nat \<Rightarrow> nat list" where
  "fanTriangle isUpper baseIndex contourStartIndex len i =
     (let next = (i + 1) mod len
      in if isUpper then [baseIndex, contourStartIndex + i, contourStartIndex + next]
         else [baseIndex, contourStartIndex + next, contourStartIndex + i])"

definition generateCap ::
  "vec3 \<Rightarrow> SliceVertex list \<times> nat list \<Rightarrow> ContourPoint list \<Rightarrow> bool
     \<Rightarrow> SliceVertex list \<times> nat list" where
  "generateCap slicePlaneNormal vi contour isUpper =
     (case vi of (vertices, indices) \<Rightarrow>
      if length contour < 3 then (vertices, indices)
      else
        (let uniqueContour = dedupContour contour
         in if length uniqueContour < 3 then (vertices, indices)
            else
              (let centroid = centroidOf uniqueContour;
                   capNormal = capNormalOf slicePlaneNormal isUpper;
                   baseIndex = length vertices;
                   vertices1 = vertices @ [capVertex centroid capNormal];
                   contourStartIndex = length vertices1;
                   vertices2 = fold (\<lambda>i vs. vs @ [capVertex (cposition (uniqueContour ! i)) capNormal])
                                 [0..<length uniqueContour] vertices1;
                   indices2 = fold (\<lambda>i ixs. ixs @
                                 fanTriangle isUpper baseIndex contourStartIndex
                                   (length uniqueContour) i)
                                 [0..<length uniqueContour] indices
               in (vertices2, indices2))))"

subsection \<open>\<open>createMeshObject\<close>\<close>

text \<open>
  Whether the mesh that \<open>engine.meshes.create\<close> returns has a position, a normal and a
  texture coordinate attribute, that is whether \<open>mesh.attribute(...)\<close> is an accessor or
  \<open>null\<close>, is decided by the host engine: a parameter.
\<close>

record meshLayout =
  hasPosition :: bool
  hasNormal :: bool
  hasTexCoord :: bool

text \<open>
  The mesh that \<open>createMeshObject\<close> creates and fills: its vertex count, its index data
  (a \<open>Uint32Array\<close> for more than 65535 vertices, a \<open>Uint16Array\<close> otherwise, which reduce
  the values they are given) and, for each attribute the mesh has, the value written for
  every vertex. The scene object around it, with the transform and the material of the
  original object, is not modelled.
\<close>

record createdMesh =
  vertexCount :: nat
  wideIndices :: bool
  meshIndexData :: "nat list"
  positionData :: "vec3 list option"
  normalData :: "vec3 list option"
  texCoordData :: "vec2 list option"

definition createMeshObject :: "meshLayout \<Rightarrow> SliceVertex list \<Rightarrow> nat list \<Rightarrow> createdMesh" where
  "createMeshObject layout vertices indices =
     \<lparr>vertexCount = length vertices,
      wideIndices = (length vertices > 65535),
      meshIndexData =
        (if length vertices > 65535 then map (\<lambda>i. i mod 2 ^ 32) indices
         else map (\<lambda>i. i mod 2 ^ 16) indices),
      positionData =
        (if hasPosition layout then Some (map position vertices) else None),
      normalData =
        (if hasNormal layout
         then Some (map (\<lambda>v. case normal v of Some nrm \<Rightarrow> nrm | None \<Rightarrow> (0, 1, 0)) vertices)
         else None),
      texCoordData =
        (if hasTexCoord layout
         then Some (map (\<lambda>v. case texCoord v of Some uv \<Rightarrow> uv | None \<Rightarrow> (0, 0)) vertices)
         else None)\<rparr>"

subsection \<open>\<open>sliceMesh\<close>\<close>

text \<open>
  The vertex and the index array of one hull, as \<open>sliceMesh\<close> hands them to
  \<open>createMeshObject\<close>.
\<close>

record hullArrays =
  hullVertices :: "SliceVertex list"
  hullIndices :: "nat list"

text \<open>The outcome of a call: the lines given to \<open>console.warn\<close> and the value returned,
  \<open>None\<close> for \<open>null\<close>.\<close>

record 'a sliceOutcome =
  warnings :: "string list"
  sliceResult :: "('a \<times> 'a) option"

definition emptyMeshWarning :: string where
  "emptyMeshWarning = ''Slice resulted in empty mesh - slice plane may not intersect object''"

text \<open>
  \<open>sliceMesh\<close> up to and including the two calls of \<open>generateCap\<close>: the test of the
  attributes, the triangle loop, the validation, the caps. Its result are the arrays
  of the two hulls.
\<close>

definition sliceMeshArrays ::
  "vec3 \<Rightarrow> vec3 \<Rightarrow> (nat \<Rightarrow> vec3) option \<Rightarrow> (nat \<Rightarrow> vec3) option \<Rightarrow> (nat \<Rightarrow> vec2) option
     \<Rightarrow> nat list option \<Rightarrow> sliceError + hullArrays sliceOutcome" where
  "sliceMeshArrays slicePlaneNormal worldPos positions normals texCoords indexData =
     (case (positions, indexData) of
        (Some ps, Some ixs) \<Rightarrow>
          (case processTriangles slicePlaneNormal worldPos ps normals texCoords ixs emptyHulls of
             Inl e \<Rightarrow> Inl e
           | Inr h \<Rightarrow>
               if length (upperVertices h) = 0 \<or> length (lowerVertices h) = 0 then
                 Inr \<lparr>warnings = [emptyMeshWarning], sliceResult = None\<rparr>
               else
                 (case generateCap slicePlaneNormal (upperVertices h, upperIndices h)
                         (upperContour h) True of
                    (uv, ui) \<Rightarrow>
                 (case generateCap slicePlaneNormal (lowerVertices h, lowerIndices h)
                         (lowerContour h) False of
                    (lv, li) \<Rightarrow>
                      Inr \<lparr>warnings = [],
                           sliceResult = Some (\<lparr>hullVertices = uv, hullIndices = ui\<rparr>,
                                               \<lparr>hullVertices = lv, hullIndices = li\<rparr>)\<rparr>)))
      | _ \<Rightarrow> Inr \<lparr>warnings = [], sliceResult = None\<rparr>)"

text \<open>
  The whole of \<open>sliceMesh\<close>: the two hulls are the meshes that \<open>createMeshObject\<close>
  creates from the arrays. The offset of the two objects by 0.1 belongs to the scene
  and is not modelled.
\<close>

definition sliceMesh ::
  "meshLayout \<Rightarrow> vec3 \<Rightarrow> vec3 \<Rightarrow> (nat \<Rightarrow> vec3) option \<Rightarrow> (nat \<Rightarrow> vec3) option
     \<Rightarrow> (nat \<Rightarrow> vec2) option \<Rightarrow> nat list option \<Rightarrow> sliceError + createdMesh sliceOutcome" where
  "sliceMesh layout slicePlaneNormal worldPos positions normals texCoords indexData =
     (case sliceMeshArrays slicePlaneNormal worldPos positions normals texCoords indexData of
        Inl e \<Rightarrow> Inl e
      | Inr out \<Rightarrow>
          Inr \<lparr>warnings = warnings out,
               sliceResult =
                 (case sliceResult out of
                    None \<Rightarrow> None
                  | Some (upper, lower) \<Rightarrow>
                      Some (createMeshObject layout (hullVertices upper) (hullIndices upper),
                            createMeshObject layout (hullVertices lower) (hullIndices lower)))\<rparr>)"

subsection \<open>\<open>update\<close>\<close>

text \<open>
  The mesh of an object to be sliced, with the attributes and the index data that
  \<open>sliceMesh\<close> reads from it, each \<open>None\<close> when the engine gives \<open>null\<close>; and the object:
  its world position and its mesh, \<open>None\<close> when it has no mesh component or the
  component has no mesh.
\<close>

record sourceMesh =
  meshPositions :: "(nat \<Rightarrow> vec3) option"
  meshNormals :: "(nat \<Rightarrow> vec3) option"
  meshTexCoords :: "(nat \<Rightarrow> vec2) option"
  meshIndices :: "nat list option"

record sceneObject =
  positionWorld :: vec3
  objectMesh :: "sourceMesh option"

text \<open>What the callback does to the scene: a line given to \<open>console.warn\<close>, a call of
  \<open>makeItPhysical\<close> on a new hull, the call of \<open>destroy\<close> on the object that was
  sliced.\<close>

datatype sceneEffect = ConsoleWarn string | MakeItPhysical createdMesh | DestroyObject

text \<open>The function that \<open>update\<close> gives to \<open>objectsToBeSliced.forEach\<close>.\<close>

definition sliceCallback :: "meshLayout \<Rightarrow> vec3 \<Rightarrow> sceneObject \<Rightarrow> sliceError + sceneEffect list" where
  "sliceCallback layout slicePlaneNormal objectToBeSliced =
     (case objectMesh objectToBeSliced of
        None \<Rightarrow> Inr []
      | Some mesh \<Rightarrow>
          (case sliceMesh layout slicePlaneNormal (positionWorld objectToBeSliced)
                  (meshPositions mesh) (meshNormals mesh) (meshTexCoords mesh)
                  (meshIndices mesh) of
             Inl e \<Rightarrow> Inl e
           | Inr out \<Rightarrow>
               Inr (map ConsoleWarn (warnings out) @
                    (case sliceResult out of
                       None \<Rightarrow> []
                     | Some (upperHull, lowerHull) \<Rightarrow>
                         [MakeItPhysical upperHull, MakeItPhysical lowerHull,
                          DestroyObject]))))"

text \<open>\<open>forEach\<close>, with the effects of the rounds in their order; an error ends it.\<close>

fun forEachObject ::
  "(sceneObject \<Rightarrow> sliceError + sceneEffect list) \<Rightarrow> sceneObject list
     \<Rightarrow> sliceError + sceneEffect list" where
  "forEachObject f [] = Inr []"
| "forEachObject f (x # xs) =
     (case f x of
        Inl e \<Rightarrow> Inl e
      | Inr effects \<Rightarrow>
          (case forEachObject f xs of
             Inl e \<Rightarrow> Inl e
           | Inr rest \<Rightarrow> Inr (effects @ rest)))"

text \<open>\<open>checkForSlicableObjects\<close> is a placeholder in the source and returns an empty
  array.\<close>

definition checkForSlicableObjects :: "sceneObject list" where
  "checkForSlicableObjects = []"

text \<open>\<open>update\<close>: the new value of \<open>isTouched\<close> and the effects.\<close>

definition update :: "meshLayout \<Rightarrow> vec3 \<Rightarrow> bool \<Rightarrow> bool \<times> (sliceError + sceneEffect list)" where
  "update layout slicePlaneNormal isTouched =
     (if isTouched then
        (False, forEachObject (sliceCallback layout slicePlaneNormal) checkForSlicableObjects)
      else (isTouched, Inr []))"

section \<open>Notions used to state the properties\<close>

text \<open>
  \<open>emitsFresh h h'\<close>: from \<open>h\<close> to \<open>h'\<close> each hull keeps its vertices and indices and
  receives whole triangles of new vertices, with the indices \<open>len\<close>, \<open>len + 1\<close>, ... of the
  new vertices in their order. The vertices emitted so far, as a multiset, and their
  number.
\<close>

definition emitsFresh :: "hulls \<Rightarrow> hulls \<Rightarrow> bool" where
  "emitsFresh h h' \<longleftrightarrow>
     (\<exists>newU. upperVertices h' = upperVertices h @ newU \<and> 3 dvd length newU \<and>
        upperIndices h' = upperIndices h @
          [length (upperVertices h)..<length (upperVertices h) + length newU]) \<and>
     (\<exists>newL. lowerVertices h' = lowerVertices h @ newL \<and> 3 dvd length newL \<and>
        lowerIndices h' = lowerIndices h @
          [length (lowerVertices h)..<length (lowerVertices h) + length newL])"

definition emittedVertices :: "hulls \<Rightarrow> SliceVertex multiset" where
  "emittedVertices h = mset (upperVertices h) + mset (lowerVertices h)"

definition emittedCount :: "hulls \<Rightarrow> nat" where
  "emittedCount h = length (upperVertices h) + length (lowerVertices h)"

subsection \<open>What a split emits\<close>

text \<open>
  \<open>isRearrangement (a, b, c) e0 e1 e2\<close>: the items \<open>a\<close>, \<open>b\<close>, \<open>c\<close> are \<open>e0\<close>, \<open>e1\<close>, \<open>e2\<close>
  in some order.
\<close>

definition isRearrangement :: "sortItem \<times> sortItem \<times> sortItem \<Rightarrow> sortItem \<Rightarrow> sortItem \<Rightarrow> sortItem \<Rightarrow> bool" where
  "isRearrangement abc e0 e1 e2 \<longleftrightarrow>
     abc \<in> {(e0, e1, e2), (e0, e2, e1), (e1, e0, e2), (e1, e2, e0), (e2, e0, e1), (e2, e1, e0)}"

text \<open>
  \<open>splitEmits h h' a b c x1 y1 x2 y2\<close>: from \<open>h\<close> to \<open>h'\<close> two vertices \<open>p\<close> and \<open>q\<close> were
  interpolated, along the edge from \<open>x1\<close> to \<open>y1\<close> and along the edge from \<open>x2\<close> to \<open>y2\<close>;
  both contours received the two contour points of \<open>p\<close> and \<open>q\<close>, each with the indices
  of its edge; the hulls received nine vertices, six in one hull and three in the other,
  with fresh consecutive indices; the hull with six holds the vertices of \<open>a\<close> and
  \<open>b\<close>, the hull with three holds the vertex of \<open>c\<close>.
\<close>

definition splitEmits ::
  "hulls \<Rightarrow> hulls \<Rightarrow> sortItem \<Rightarrow> sortItem \<Rightarrow> sortItem
     \<Rightarrow> sortItem \<Rightarrow> sortItem \<Rightarrow> sortItem \<Rightarrow> sortItem \<Rightarrow> bool" where
  "splitEmits h h' a b c x1 y1 x2 y2 \<longleftrightarrow>
     (let p = interpolateVertex (sv x1) (sv y1) (\<bar>sd x1\<bar> / (\<bar>sd x1\<bar> + \<bar>sd y1\<bar>));
          q = interpolateVertex (sv x2) (sv y2) (\<bar>sd x2\<bar> / (\<bar>sd x2\<bar> + \<bar>sd y2\<bar>));
          cps = [\<lparr>cposition = position p, edgeVerts = (si x1, si y1)\<rparr>,
                 \<lparr>cposition = position q, edgeVerts = (si x2, si y2)\<rparr>]
      in upperContour h' = upperContour h @ cps \<and> lowerContour h' = lowerContour h @ cps \<and>
         (\<exists>newU newL.
            upperVertices h' = upperVertices h @ newU \<and>
            lowerVertices h' = lowerVertices h @ newL \<and>
            upperIndices h' = upperIndices h @
              [length (upperVertices h)..<length (upperVertices h) + length newU] \<and>
            lowerIndices h' = lowerIndices h @
              [length (lowerVertices h)..<length (lowerVertices h) + length newL] \<and>
            set newU \<union> set newL = {sv a, sv b, sv c, p, q} \<and>
            (length newU = 6 \<and> length newL = 3 \<and>
               sv a \<in> set newU \<and> sv b \<in> set newU \<and> sv c \<in> set newL \<or>
             length newU = 3 \<and> length newL = 6 \<and>
               sv a \<in> set newL \<and> sv b \<in> set newL \<and> sv c \<in> set newU)))"

text \<open>
  \<open>splitShape\<close> adds the signs: \<open>a\<close> and \<open>b\<close> have the same sign and \<open>c\<close> another one, and
  each interpolated edge runs from a vertex on or below the plane to a vertex on or above
  it, the two not both on the plane.
\<close>

definition splitShape :: "hulls \<Rightarrow> hulls \<Rightarrow> sortItem \<Rightarrow> sortItem \<Rightarrow> sortItem
     \<Rightarrow> sortItem \<Rightarrow> sortItem \<Rightarrow> sortItem \<Rightarrow> sortItem \<Rightarrow> bool" where
  "splitShape h h' a b c x1 y1 x2 y2 \<longleftrightarrow>
     sgn (sd a) = sgn (sd b) \<and> sgn (sd c) \<noteq> sgn (sd a) \<and>
     sd x1 \<le> 0 \<and> 0 \<le> sd y1 \<and> \<bar>sd x1\<bar> + \<bar>sd y1\<bar> \<noteq> 0 \<and>
     sd x2 \<le> 0 \<and> 0 \<le> sd y2 \<and> \<bar>sd x2\<bar> + \<bar>sd y2\<bar> \<noteq> 0 \<and>
     splitEmits h h' a b c x1 y1 x2 y2"

subsection \<open>Winding\<close>

text \<open>The face normal of a triangle is the cross product of its edge vectors; two
  triangles in one plane wind the same way when their face normals have a positive dot
  product.\<close>

fun sub3 :: "vec3 \<Rightarrow> vec3 \<Rightarrow> vec3" where
  "sub3 (a0, a1, a2) (b0, b1, b2) = (a0 - b0, a1 - b1, a2 - b2)"

fun cross3 :: "vec3 \<Rightarrow> vec3 \<Rightarrow> vec3" where
  "cross3 (a0, a1, a2) (b0, b1, b2) = (a1 * b2 - a2 * b1, a2 * b0 - a0 * b2, a0 * b1 - a1 * b0)"

fun dot3 :: "vec3 \<Rightarrow> vec3 \<Rightarrow> real" where
  "dot3 (a0, a1, a2) (b0, b1, b2) = a0 * b0 + a1 * b1 + a2 * b2"

definition faceNormal :: "vec3 \<Rightarrow> vec3 \<Rightarrow> vec3 \<Rightarrow> vec3" where
  "faceNormal a b c = cross3 (sub3 b a) (sub3 c a)"

definition sameWinding :: "vec3 list \<Rightarrow> vec3 list \<Rightarrow> bool" where
  "sameWinding s t \<longleftrightarrow>
     dot3 (faceNormal (s ! 0) (s ! 1) (s ! 2)) (faceNormal (t ! 0) (t ! 1) (t ! 2)) > 0"

subsection \<open>Contours\<close>

text \<open>The squared distance that \<open>isDuplicateOf\<close> compares with \<open>epsilon * epsilon\<close>, and a
  contour where no point is a duplicate of an earlier one.\<close>

fun sqDist :: "vec3 \<Rightarrow> vec3 \<Rightarrow> real" where
  "sqDist (ax, ay, az) (bx, by, bz) =
     (ax - bx) * (ax - bx) + (ay - by) * (ay - by) + (az - bz) * (az - bz)"

definition separated :: "ContourPoint list \<Rightarrow> bool" where
  "separated u \<longleftrightarrow> (\<forall>j < length u. \<forall>i < j. \<not> isDuplicateOf (u ! j) (u ! i))"

subsection \<open>Meshes on one side of the plane\<close>

text \<open>The classification of the triangle with indices \<open>i0\<close>, \<open>i1\<close>, \<open>i2\<close>, as the loop
  computes it; \<open>allTriangles P\<close> holds of an index array of whole triangles that all
  satisfy \<open>P\<close>. The plane does not meet a triangle whose three vertices are strictly
  above it, or strictly below it.\<close>

definition topologyOf :: "vec3 \<Rightarrow> vec3 \<Rightarrow> (nat \<Rightarrow> vec3) \<Rightarrow> nat \<Rightarrow> nat \<Rightarrow> nat \<Rightarrow> topology" where
  "topologyOf n wp ps i0 i1 i2 =
     classify (getSideOfPlane n (ps i0) wp) (getSideOfPlane n (ps i1) wp)
       (getSideOfPlane n (ps i2) wp)"

fun allTriangles :: "(nat \<Rightarrow> nat \<Rightarrow> nat \<Rightarrow> bool) \<Rightarrow> nat list \<Rightarrow> bool" where
  "allTriangles P [] = True"
| "allTriangles P (i0 # i1 # i2 # rest) = (P i0 i1 i2 \<and> allTriangles P rest)"
| "allTriangles P [i0] = False"
| "allTriangles P [i0, i1] = False"

definition strictlyAbove :: "vec3 \<Rightarrow> vec3 \<Rightarrow> (nat \<Rightarrow> vec3) \<Rightarrow> nat \<Rightarrow> nat \<Rightarrow> nat \<Rightarrow> bool" where
  "strictlyAbove n wp ps i0 i1 i2 \<longleftrightarrow>
     0 < getSideOfPlane n (ps i0) wp \<and> 0 < getSideOfPlane n (ps i1) wp \<and>
     0 < getSideOfPlane n (ps i2) wp"

definition strictlyBelow :: "vec3 \<Rightarrow> vec3 \<Rightarrow> (nat \<Rightarrow> vec3) \<Rightarrow> nat \<Rightarrow> nat \<Rightarrow> nat \<Rightarrow> bool" where
  "strictlyBelow n wp ps i0 i1 i2 \<longleftrightarrow>
     getSideOfPlane n (ps i0) wp < 0 \<and> getSideOfPlane n (ps i1) wp < 0 \<and>
     getSideOfPlane n (ps i2) wp < 0"

text \<open>The number of triangles of an index array that the loop sends to
  \<open>splitTriangle\<close>.\<close>

fun straddleCount :: "vec3 \<Rightarrow> vec3 \<Rightarrow> (nat \<Rightarrow> vec3) \<Rightarrow> nat list \<Rightarrow> nat" where
  "straddleCount n wp ps (i0 # i1 # i2 # rest) =
     (if topologyOf n wp ps i0 i1 i2 = Straddle then 1 else 0) + straddleCount n wp ps rest"
| "straddleCount n wp ps rest = 0"

subsection \<open>Optional attributes\<close>

text \<open>\<open>carries withNormal withTexCoord v\<close>: the vertex has a normal exactly when
  \<open>withNormal\<close>, and a texture coordinate exactly when \<open>withTexCoord\<close>. A vertex array is
  attribute consistent when all or none of its vertices have a normal, and all or none
  have a texture coordinate.\<close>

definition carries :: "bool \<Rightarrow> bool \<Rightarrow> SliceVertex \<Rightarrow> bool" where
  "carries withNormal withTexCoord v \<longleftrightarrow>
     (normal v \<noteq> None) = withNormal \<and> (texCoord v \<noteq> None) = withTexCoord"

definition hullsCarry :: "bool \<Rightarrow> bool \<Rightarrow> hulls \<Rightarrow> bool" where
  "hullsCarry withNormal withTexCoord h \<longleftrightarrow>
     list_all (carries withNormal withTexCoord) (upperVertices h) \<and>
     list_all (carries withNormal withTexCoord) (lowerVertices h)"

definition attributeConsistent :: "SliceVertex list \<Rightarrow> bool" where
  "attributeConsistent vs \<longleftrightarrow>
     (list_all (\<lambda>v. normal v \<noteq> None) vs \<or> list_all (\<lambda>v. normal v = None) vs) \<and>
     (list_all (\<lambda>v. texCoord v \<noteq> None) vs \<or> list_all (\<lambda>v. texCoord v = None) vs)"

text \<open>The vertices that \<open>generateCap\<close> appends for a contour: none for fewer than three
  unique points, else the centroid vertex and one vertex for each unique point.\<close>

definition capVertices :: "vec3 \<Rightarrow> ContourPoint list \<Rightarrow> bool \<Rightarrow> SliceVertex list" where
  "capVertices n contour isUpper =
     (if length contour < 3 \<or> length (dedupContour contour) < 3 then []
      else capVertex (centroidOf (dedupContour contour)) (capNormalOf n isUpper) #
           map (\<lambda>pt. capVertex (cposition pt) (capNormalOf n isUpper)) (dedupContour contour))"

text \<open>The vertex array of the upper hull after slicing and capping, empty when there
  is none.\<close>

definition upperHullVertices :: "sliceError + hullArrays sliceOutcome \<Rightarrow> SliceVertex list" where
  "upperHullVertices r =
     (case r of Inl e \<Rightarrow> []
      | Inr out \<Rightarrow> (case sliceResult out of None \<Rightarrow> [] | Some (U, L) \<Rightarrow> hullVertices U))"

subsection \<open>Concrete meshes\<close>

text \<open>An attribute accessor that reads from a list of stored values.\<close>

definition attributeOf :: "'a list \<Rightarrow> nat \<Rightarrow> 'a" where
  "attributeOf xs index = xs ! index"

text \<open>The default \<open>slicePlaneNormal = [0, 1, 0]\<close>, and an object placed at the origin.\<close>

definition planeUp :: vec3 where
  "planeUp = (0, 1, 0)"

definition origin :: vec3 where
  "origin = (0, 0, 0)"

text \<open>A triangle above the plane \<open>y = 0\<close>, and one with a vertex above it, a vertex on it
  and a vertex below it.\<close>

definition aboveTriangle :: "vec3 list" where
  "aboveTriangle = [(0, 1, 0), (1, 1, 0), (0, 1, 1)]"

definition crossingTriangle :: "vec3 list" where
  "crossingTriangle = [(0, 1, 0), (1, 0, 0), (0, - 1, 0)]"

text \<open>A triangle whose vertices have the distances -1, 2 and 1, so that sorting by
  distance exchanges the second and the third vertex.\<close>

definition windingTriangle :: "vec3 list" where
  "windingTriangle = [(0, - 1, 0), (1, 2, 0), (- 1, 1, 0)]"

definition windingVertex :: "nat \<Rightarrow> SliceVertex" where
  "windingVertex index = getVertexData index (attributeOf windingTriangle) None None"

definition windingDistance :: "nat \<Rightarrow> real" where
  "windingDistance index = getSideOfPlane planeUp (position (windingVertex index)) origin"

definition windingResult :: hulls where
  "windingResult =
     processTriangle planeUp origin (attributeOf windingTriangle) None None 0 1 2 emptyHulls"

text \<open>Contours with a point closer than \<open>epsilon\<close> to the first one.\<close>

definition triContour :: "ContourPoint list" where
  "triContour =
     [\<lparr>cposition = (1, 0, 0), edgeVerts = (0, 1)\<rparr>,
      \<lparr>cposition = (1, 0, 1 / 100000), edgeVerts = (0, 2)\<rparr>,
      \<lparr>cposition = (0, 0, 1), edgeVerts = (0, 3)\<rparr>,
      \<lparr>cposition = (- 1, 0, 0), edgeVerts = (0, 4)\<rparr>]"

definition nearContour :: "ContourPoint list" where
  "nearContour =
     [\<lparr>cposition = (1, 0, 0), edgeVerts = (0, 1)\<rparr>,
      \<lparr>cposition = (1, 0, 1 / 100000), edgeVerts = (0, 2)\<rparr>,
      \<lparr>cposition = (0, 0, 1), edgeVerts = (0, 3)\<rparr>]"

text \<open>Two faces of a tent with its top above and its base below the plane \<open>y = 0\<close>.\<close>

definition tentPositions :: "vec3 list" where
  "tentPositions = [(0, 1, 0), (1, - 1, 0), (- 1, - 1, 1), (- 1, - 1, - 1)]"

definition tentNormals :: "vec3 list" where
  "tentNormals = [(0, 0, 1), (0, 0, 1), (0, 0, 1), (0, 0, 1)]"

definition tentTexCoords :: "vec2 list" where
  "tentTexCoords = [(0, 0), (1, 0), (0, 1), (1, 1)]"

definition tentIndices :: "nat list" where
  "tentIndices = [0, 1, 2, 0, 2, 3]"

text \<open>The tent and its base: the second triangle is below the plane and shares two
  vertices with the first.\<close>

definition sharedIndices :: "nat list" where
  "sharedIndices = [0, 1, 2, 1, 3, 2]"



text \<open>A mesh layout with all three attributes.\<close>

definition fullLayout :: meshLayout where
  "fullLayout = \<lparr>hasPosition = True, hasNormal = True, hasTexCoord = True\<rparr>"

section \<open>Properties\<close>

subsection \<open>Field projections of the emitting operations\<close>

lemma addUpper_simps [simp]:
  "upperVertices (addUpper h a b c) = upperVertices h @ [a, b, c]"
  "upperIndices (addUpper h a b c) =
     upperIndices h @ [length (upperVertices h), length (upperVertices h) + 1,
                       length (upperVertices h) + 2]"
  "lowerVertices (addUpper h a b c) = lowerVertices h"
  "lowerIndices (addUpper h a b c) = lowerIndices h"
  "upperContour (addUpper h a b c) = upperContour h"
  "lowerContour (addUpper h a b c) = lowerContour h"
  by (simp_all add: addUpper_def Let_def)

lemma addLower_simps [simp]:
  "lowerVertices (addLower h a b c) = lowerVertices h @ [a, b, c]"
  "lowerIndices (addLower h a b c) =
     lowerIndices h @ [length (lowerVertices h), length (lowerVertices h) + 1,
                       length (lowerVertices h) + 2]"
  "upperVertices (addLower h a b c) = upperVertices h"
  "upperIndices (addLower h a b c) = upperIndices h"
  "upperContour (addLower h a b c) = upperContour h"
  "lowerContour (addLower h a b c) = lowerContour h"
  by (simp_all add: addLower_def Let_def)

lemma pushContours_simps [simp]:
  "upperVertices (pushContours h p q) = upperVertices h"
  "upperIndices (pushContours h p q) = upperIndices h"
  "lowerVertices (pushContours h p q) = lowerVertices h"
  "lowerIndices (pushContours h p q) = lowerIndices h"
  "upperContour (pushContours h p q) = upperContour h @ [p, q]"
  "lowerContour (pushContours h p q) = lowerContour h @ [p, q]"
  by (simp_all add: pushContours_def)

lemma sort3_obtain:
  fixes e0 e1 e2 :: sortItem
  obtains a b c where "sort_key sd [e0, e1, e2] = [a, b, c]"
    and "sd a \<le> sd b" and "sd b \<le> sd c"
    and "(a, b, c) \<in> {(e0, e1, e2), (e0, e2, e1), (e1, e0, e2), (e1, e2, e0), (e2, e0, e1), (e2, e1, e0)}"
  by (cases "sd e0 \<le> sd e1"; cases "sd e1 \<le> sd e2"; cases "sd e0 \<le> sd e2") auto

lemma splitTriangle_sorted:
  assumes "sort_key sd [\<lparr>sv = v0, sd = d0, si = i0\<rparr>, \<lparr>sv = v1, sd = d1, si = i1\<rparr>,
             \<lparr>sv = v2, sd = d2, si = i2\<rparr>] = [a, b, c]"
  shows "splitTriangle v0 v1 v2 d0 d1 d2 h i0 i1 i2 = splitSorted a b c h"
  unfolding splitTriangle_def assms Let_def by simp

subsection \<open>Classification\<close>

text \<open>
  Claim C1. The triangle with indices \<open>i0\<close>, \<open>i1\<close>, \<open>i2\<close> is classified by the sum of the
  signs of its three signed plane distances: the sum 3 gives \<open>AllAbove\<close>, the sum -3 gives
  \<open>AllBelow\<close>, the sum 0 with a sign equal to 0 gives \<open>OnPlane\<close>, and everything else gives
  \<open>Straddle\<close>. The loop body appends the whole triangle to the upper hull for
  \<open>AllAbove\<close> and \<open>OnPlane\<close>, to the lower hull for \<open>AllBelow\<close>, and calls
  \<open>splitTriangle\<close> for \<open>Straddle\<close>; \<open>classify\<close> being a function, exactly one case applies.
\<close>

theorem classification_by_sign_sum:
  fixes n wp :: vec3 and ps :: "nat \<Rightarrow> vec3" and ns ts and i0 i1 i2 :: nat and h :: hulls
  defines "d0 \<equiv> getSideOfPlane n (ps i0) wp"
    and "d1 \<equiv> getSideOfPlane n (ps i1) wp"
    and "d2 \<equiv> getSideOfPlane n (ps i2) wp"
  defines "v0 \<equiv> getVertexData i0 ps ns ts"
    and "v1 \<equiv> getVertexData i1 ps ns ts"
    and "v2 \<equiv> getVertexData i2 ps ns ts"
  shows "(classify d0 d1 d2 = AllAbove \<longleftrightarrow> sgn d0 + sgn d1 + sgn d2 = 3) \<and>
         (classify d0 d1 d2 = AllBelow \<longleftrightarrow> sgn d0 + sgn d1 + sgn d2 = - 3) \<and>
         (classify d0 d1 d2 = OnPlane \<longleftrightarrow>
            sgn d0 + sgn d1 + sgn d2 = 0 \<and> (sgn d0 = 0 \<or> sgn d1 = 0 \<or> sgn d2 = 0)) \<and>
         (classify d0 d1 d2 = Straddle \<longleftrightarrow>
            sgn d0 + sgn d1 + sgn d2 \<noteq> 3 \<and> sgn d0 + sgn d1 + sgn d2 \<noteq> - 3 \<and>
            \<not> (sgn d0 + sgn d1 + sgn d2 = 0 \<and> (sgn d0 = 0 \<or> sgn d1 = 0 \<or> sgn d2 = 0))) \<and>
         processTriangle n wp ps ns ts i0 i1 i2 h =
           (case classify d0 d1 d2 of
              AllAbove \<Rightarrow>
                h\<lparr>upperVertices := upperVertices h @ [v0, v1, v2],
                  upperIndices := upperIndices h @
                    [length (upperVertices h), length (upperVertices h) + 1,
                     length (upperVertices h) + 2]\<rparr>
            | AllBelow \<Rightarrow>
                h\<lparr>lowerVertices := lowerVertices h @ [v0, v1, v2],
                  lowerIndices := lowerIndices h @
                    [length (lowerVertices h), length (lowerVertices h) + 1,
                     length (lowerVertices h) + 2]\<rparr>
            | OnPlane \<Rightarrow>
                h\<lparr>upperVertices := upperVertices h @ [v0, v1, v2],
                  upperIndices := upperIndices h @
                    [length (upperVertices h), length (upperVertices h) + 1,
                     length (upperVertices h) + 2]\<rparr>
            | Straddle \<Rightarrow> splitTriangle v0 v1 v2 d0 d1 d2 h i0 i1 i2)"
proof -
  have route: "processTriangle n wp ps ns ts i0 i1 i2 h =
           (case classify d0 d1 d2 of
              AllAbove \<Rightarrow>
                h\<lparr>upperVertices := upperVertices h @ [v0, v1, v2],
                  upperIndices := upperIndices h @
                    [length (upperVertices h), length (upperVertices h) + 1,
                     length (upperVertices h) + 2]\<rparr>
            | AllBelow \<Rightarrow>
                h\<lparr>lowerVertices := lowerVertices h @ [v0, v1, v2],
                  lowerIndices := lowerIndices h @
                    [length (lowerVertices h), length (lowerVertices h) + 1,
                     length (lowerVertices h) + 2]\<rparr>
            | OnPlane \<Rightarrow>
                h\<lparr>upperVertices := upperVertices h @ [v0, v1, v2],
                  upperIndices := upperIndices h @
                    [length (upperVertices h), length (upperVertices h) + 1,
                     length (upperVertices h) + 2]\<rparr>
            | Straddle \<Rightarrow> splitTriangle v0 v1 v2 d0 d1 d2 h i0 i1 i2)"
    unfolding processTriangle_def Let_def v0_def v1_def v2_def d0_def d1_def d2_def
    by (simp add: getVertexData_def addUpper_def addLower_def Let_def split: topology.split)
  have cls: "(classify d0 d1 d2 = AllAbove \<longleftrightarrow> sgn d0 + sgn d1 + sgn d2 = 3)"
     "(classify d0 d1 d2 = AllBelow \<longleftrightarrow> sgn d0 + sgn d1 + sgn d2 = - 3)"
     "(classify d0 d1 d2 = OnPlane \<longleftrightarrow>
            sgn d0 + sgn d1 + sgn d2 = 0 \<and> (sgn d0 = 0 \<or> sgn d1 = 0 \<or> sgn d2 = 0))"
     "(classify d0 d1 d2 = Straddle \<longleftrightarrow>
            sgn d0 + sgn d1 + sgn d2 \<noteq> 3 \<and> sgn d0 + sgn d1 + sgn d2 \<noteq> - 3 \<and>
            \<not> (sgn d0 + sgn d1 + sgn d2 = 0 \<and> (sgn d0 = 0 \<or> sgn d1 = 0 \<or> sgn d2 = 0)))"
    by (auto simp: classify_def Let_def)
  from cls route show ?thesis by blast
qed

theorem classification_by_sign_sum_witness:
  "classify (getSideOfPlane planeUp (attributeOf aboveTriangle 0) origin)
     (getSideOfPlane planeUp (attributeOf aboveTriangle 1) origin)
     (getSideOfPlane planeUp (attributeOf aboveTriangle 2) origin) = AllAbove \<and>
   upperVertices (processTriangle planeUp origin (attributeOf aboveTriangle) None None 0 1 2 emptyHulls) =
     [getVertexData 0 (attributeOf aboveTriangle) None None,
      getVertexData 1 (attributeOf aboveTriangle) None None,
      getVertexData 2 (attributeOf aboveTriangle) None None]"
proof -
  have s: "sgn (getSideOfPlane planeUp (attributeOf aboveTriangle 0) origin) +
        sgn (getSideOfPlane planeUp (attributeOf aboveTriangle 1) origin) +
        sgn (getSideOfPlane planeUp (attributeOf aboveTriangle 2) origin) = 3"
    by (simp add: planeUp_def origin_def attributeOf_def aboveTriangle_def)
  note t = classification_by_sign_sum [of planeUp "attributeOf aboveTriangle" 0 origin 1 2 None None emptyHulls]
  from t s have c: "classify (getSideOfPlane planeUp (attributeOf aboveTriangle 0) origin)
     (getSideOfPlane planeUp (attributeOf aboveTriangle 1) origin)
     (getSideOfPlane planeUp (attributeOf aboveTriangle 2) origin) = AllAbove"
    by blast
  from t have "processTriangle planeUp origin (attributeOf aboveTriangle) None None 0 1 2 emptyHulls =
     emptyHulls\<lparr>upperVertices := upperVertices emptyHulls @
         [getVertexData 0 (attributeOf aboveTriangle) None None,
          getVertexData 1 (attributeOf aboveTriangle) None None,
          getVertexData 2 (attributeOf aboveTriangle) None None],
       upperIndices := upperIndices emptyHulls @
                    [length (upperVertices emptyHulls), length (upperVertices emptyHulls) + 1,
                     length (upperVertices emptyHulls) + 2]\<rparr>"
    unfolding c by simp
  then show ?thesis using c by (simp add: emptyHulls_def)
qed

text \<open>
  Claim C8 asks that a triangle classified \<open>OnPlane\<close> has no two vertices strictly on
  opposite sides of the plane. The triangle with distances 1, 0 and -1 has sign sum 0 and
  a sign equal to 0: it is classified \<open>OnPlane\<close> and goes whole into the upper hull,
  with its vertex below the plane.
\<close>

theorem onplane_triangle_crosses_plane:
  "getSideOfPlane planeUp (attributeOf crossingTriangle 0) origin = 1 \<and>
   getSideOfPlane planeUp (attributeOf crossingTriangle 1) origin = 0 \<and>
   getSideOfPlane planeUp (attributeOf crossingTriangle 2) origin = - 1 \<and>
   classify 1 0 (- 1) = OnPlane \<and>
   upperVertices (processTriangle planeUp origin (attributeOf crossingTriangle) None None 0 1 2
       emptyHulls) =
     [\<lparr>position = (0, 1, 0), normal = None, texCoord = None\<rparr>,
      \<lparr>position = (1, 0, 0), normal = None, texCoord = None\<rparr>,
      \<lparr>position = (0, - 1, 0), normal = None, texCoord = None\<rparr>] \<and>
   lowerVertices (processTriangle planeUp origin (attributeOf crossingTriangle) None None 0 1 2
       emptyHulls) = []"
  by (simp add: planeUp_def origin_def attributeOf_def crossingTriangle_def classify_def
      processTriangle_def getVertexData_def emptyHulls_def)

subsection \<open>No vertex is shared before capping\<close>

lemma dvd3_Suc3: "3 dvd Suc (Suc (Suc n)) \<longleftrightarrow> 3 dvd n"
proof -
  have "Suc (Suc (Suc n)) = n + 3" by simp
  then show ?thesis by (simp only: dvd_add_triv_right_iff)
qed

lemma not_dvd3_2: "\<not> 3 dvd Suc (Suc 0)"
  by (simp add: dvd_def) arith

lemma processTriangles_total:
  "3 dvd length ixs \<Longrightarrow> \<exists>h'. processTriangles n wp ps ns ts ixs h = Inr h'"
proof (induction n wp ps ns ts ixs h rule: processTriangles.induct)
  case (1 n wp ps ns ts h)
  show ?case by simp
next
  case (2 n wp ps ns ts i0 i1 i2 rest h)
  from 2(2) have "3 dvd length rest" by (simp add: dvd3_Suc3)
  from 2(1)[OF this] show ?case by simp
next
  case (3 n wp ps ns ts i0 h)
  then show ?case by simp
next
  case (4 n wp ps ns ts i0 i1 h)
  then show ?case by (simp add: not_dvd3_2)
qed

lemma emitsFresh_refl: "emitsFresh h h"
  by (simp add: emitsFresh_def)

lemma emitsFresh_trans:
  assumes "emitsFresh h1 h2" and "emitsFresh h2 h3"
  shows "emitsFresh h1 h3"
proof -
  from assms(1) obtain u1 l1 where
    u1: "upperVertices h2 = upperVertices h1 @ u1" "3 dvd length u1"
      "upperIndices h2 = upperIndices h1 @
          [length (upperVertices h1)..<length (upperVertices h1) + length u1]"
    and l1: "lowerVertices h2 = lowerVertices h1 @ l1" "3 dvd length l1"
      "lowerIndices h2 = lowerIndices h1 @
          [length (lowerVertices h1)..<length (lowerVertices h1) + length l1]"
    unfolding emitsFresh_def by blast
  from assms(2) obtain u2 l2 where
    u2: "upperVertices h3 = upperVertices h2 @ u2" "3 dvd length u2"
      "upperIndices h3 = upperIndices h2 @
          [length (upperVertices h2)..<length (upperVertices h2) + length u2]"
    and l2: "lowerVertices h3 = lowerVertices h2 @ l2" "3 dvd length l2"
      "lowerIndices h3 = lowerIndices h2 @
          [length (lowerVertices h2)..<length (lowerVertices h2) + length l2]"
    unfolding emitsFresh_def by blast
  have upt: "[a..<a + x] @ [a + x..<a + x + y] = [a..<a + (x + y)]" for a x y :: nat
    using upt_add_eq_append [of a "a + x" y] by (simp add: add.assoc)
  have "upperVertices h3 = upperVertices h1 @ (u1 @ u2) \<and> 3 dvd length (u1 @ u2) \<and>
        upperIndices h3 = upperIndices h1 @
          [length (upperVertices h1)..<length (upperVertices h1) + length (u1 @ u2)]"
    using u1 u2 by (simp add: upt)
  moreover
  have "lowerVertices h3 = lowerVertices h1 @ (l1 @ l2) \<and> 3 dvd length (l1 @ l2) \<and>
        lowerIndices h3 = lowerIndices h1 @
          [length (lowerVertices h1)..<length (lowerVertices h1) + length (l1 @ l2)]"
    using l1 l2 by (simp add: upt)
  ultimately show ?thesis
    unfolding emitsFresh_def by blast
qed

lemma upt_three: "[n..<n + 3] = [n, n + 1, n + 2]"
  by (simp add: upt_conv_Cons)

lemma emitsFresh_addUpper: "emitsFresh h (addUpper h a b c)"
  unfolding emitsFresh_def
  by (simp add: upt_three numeral_3_eq_3)

lemma emitsFresh_addLower: "emitsFresh h (addLower h a b c)"
  unfolding emitsFresh_def
  by (simp add: upt_three numeral_3_eq_3)

lemma emitsFresh_pushContours: "emitsFresh h (pushContours h p q)"
  by (simp add: emitsFresh_def)

lemma emitsFresh_then_addUpper: "emitsFresh h h1 \<Longrightarrow> emitsFresh h (addUpper h1 a b c)"
  by (erule emitsFresh_trans) (rule emitsFresh_addUpper)

lemma emitsFresh_then_addLower: "emitsFresh h h1 \<Longrightarrow> emitsFresh h (addLower h1 a b c)"
  by (erule emitsFresh_trans) (rule emitsFresh_addLower)

lemma emitsFresh_then_pushContours: "emitsFresh h h1 \<Longrightarrow> emitsFresh h (pushContours h1 p q)"
  by (erule emitsFresh_trans) (rule emitsFresh_pushContours)

lemma emitsFresh_splitSorted: "emitsFresh h (splitSorted a b c h)"
  unfolding splitSorted_def Let_def
  by (simp add: emitsFresh_then_addUpper emitsFresh_then_addLower emitsFresh_then_pushContours
      emitsFresh_refl)

lemma emitted_addUpper:
  "emittedVertices (addUpper h a b c) = emittedVertices h + {#a, b, c#}"
  "emittedCount (addUpper h a b c) = emittedCount h + 3"
  by (simp_all add: emittedVertices_def emittedCount_def)

lemma emitted_addLower:
  "emittedVertices (addLower h a b c) = emittedVertices h + {#a, b, c#}"
  "emittedCount (addLower h a b c) = emittedCount h + 3"
  by (simp_all add: emittedVertices_def emittedCount_def)

lemma emitted_pushContours:
  "emittedVertices (pushContours h p q) = emittedVertices h"
  "emittedCount (pushContours h p q) = emittedCount h"
  by (simp_all add: emittedVertices_def emittedCount_def)

lemma emitted_splitSorted:
  "emittedCount (splitSorted a b c h) = emittedCount h + 9"
  "emittedVertices h + {#sv a, sv b, sv c#} \<subseteq># emittedVertices (splitSorted a b c h)"
  unfolding splitSorted_def Let_def
  by (simp_all add: emitted_addUpper emitted_addLower emitted_pushContours)

lemma rearranged_mset:
  assumes "isRearrangement (a, b, c) e0 e1 e2"
  shows "{#sv a, sv b, sv c#} = {#sv e0, sv e1, sv e2#}"
proof -
  from assms consider "a = e0 \<and> b = e1 \<and> c = e2" | "a = e0 \<and> b = e2 \<and> c = e1"
    | "a = e1 \<and> b = e0 \<and> c = e2" | "a = e1 \<and> b = e2 \<and> c = e0"
    | "a = e2 \<and> b = e0 \<and> c = e1" | "a = e2 \<and> b = e1 \<and> c = e0"
    unfolding isRearrangement_def by simp blast
  then show ?thesis
    by cases (simp_all add: add_mset_commute)
qed

lemma emitted_splitTriangle:
  "emittedCount (splitTriangle v0 v1 v2 d0 d1 d2 h i0 i1 i2) = emittedCount h + 9"
  "emittedVertices h + {#v0, v1, v2#} \<subseteq>#
     emittedVertices (splitTriangle v0 v1 v2 d0 d1 d2 h i0 i1 i2)"
proof -
  obtain a b c where srt: "sort_key sd [\<lparr>sv = v0, sd = d0, si = i0\<rparr>,
        \<lparr>sv = v1, sd = d1, si = i1\<rparr>, \<lparr>sv = v2, sd = d2, si = i2\<rparr>] = [a, b, c]"
    and re: "isRearrangement (a, b, c) \<lparr>sv = v0, sd = d0, si = i0\<rparr>
        \<lparr>sv = v1, sd = d1, si = i1\<rparr> \<lparr>sv = v2, sd = d2, si = i2\<rparr>"
    unfolding isRearrangement_def by (rule sort3_obtain)
  have m: "{#sv a, sv b, sv c#} = {#v0, v1, v2#}"
    using rearranged_mset [OF re] by simp
  show "emittedCount (splitTriangle v0 v1 v2 d0 d1 d2 h i0 i1 i2) = emittedCount h + 9"
    unfolding splitTriangle_sorted [OF srt] by (rule emitted_splitSorted)
  show "emittedVertices h + {#v0, v1, v2#} \<subseteq>#
     emittedVertices (splitTriangle v0 v1 v2 d0 d1 d2 h i0 i1 i2)"
    unfolding splitTriangle_sorted [OF srt] m [symmetric] by (rule emitted_splitSorted)
qed

lemma emitsFresh_splitTriangle:
  "emitsFresh h (splitTriangle v0 v1 v2 d0 d1 d2 h i0 i1 i2)"
  unfolding splitTriangle_def Let_def by (rule emitsFresh_splitSorted)

lemma processTriangle_emits:
  "emitsFresh h (processTriangle n wp ps ns ts i0 i1 i2 h)"
  "emittedCount (processTriangle n wp ps ns ts i0 i1 i2 h) =
     emittedCount h + (if topologyOf n wp ps i0 i1 i2 = Straddle then 9 else 3)"
  "emittedVertices h +
     {#getVertexData i0 ps ns ts, getVertexData i1 ps ns ts, getVertexData i2 ps ns ts#} \<subseteq>#
     emittedVertices (processTriangle n wp ps ns ts i0 i1 i2 h)"
proof -
  have p: "position (getVertexData i ps ns ts) = ps i" for i
    by (simp add: getVertexData_def)
  show "emitsFresh h (processTriangle n wp ps ns ts i0 i1 i2 h)"
    unfolding processTriangle_def Let_def
    by (simp add: emitsFresh_addUpper emitsFresh_addLower emitsFresh_splitTriangle
        split: topology.split)
  show "emittedCount (processTriangle n wp ps ns ts i0 i1 i2 h) =
     emittedCount h + (if topologyOf n wp ps i0 i1 i2 = Straddle then 9 else 3)"
    unfolding processTriangle_def Let_def topologyOf_def p
    by (simp add: emitted_addUpper emitted_addLower emitted_splitTriangle
        split: topology.split)
  show "emittedVertices h +
     {#getVertexData i0 ps ns ts, getVertexData i1 ps ns ts, getVertexData i2 ps ns ts#} \<subseteq>#
     emittedVertices (processTriangle n wp ps ns ts i0 i1 i2 h)"
    unfolding processTriangle_def Let_def
    by (simp add: emitted_addUpper emitted_addLower emitted_splitTriangle(2) [simplified]
        split: topology.split)
qed

lemma processTriangles_emits:
  assumes "processTriangles n wp ps ns ts ixs h = Inr h'"
  shows "emitsFresh h h' \<and>
         emittedCount h' = emittedCount h + length ixs + 6 * straddleCount n wp ps ixs \<and>
         emittedVertices h + mset (map (\<lambda>i. getVertexData i ps ns ts) ixs) \<subseteq>#
           emittedVertices h'"
  using assms
proof (induction n wp ps ns ts ixs h rule: processTriangles.induct)
  case (1 n wp ps ns ts h)
  then show ?case by (simp add: emitsFresh_refl)
next
  case (2 n wp ps ns ts i0 i1 i2 rest h)
  let ?h1 = "processTriangle n wp ps ns ts i0 i1 i2 h"
  from 2(2) have "processTriangles n wp ps ns ts rest ?h1 = Inr h'"
    by simp
  from 2(1) [OF this] have f: "emitsFresh ?h1 h'"
    and c: "emittedCount h' = emittedCount ?h1 + length rest + 6 * straddleCount n wp ps rest"
    and m: "emittedVertices ?h1 + mset (map (\<lambda>i. getVertexData i ps ns ts) rest) \<subseteq>#
           emittedVertices h'"
    by blast+
  note s = processTriangle_emits [where h = h and n = n and wp = wp and ps = ps and ns = ns
      and ts = ts and ?i0.0 = i0 and ?i1.0 = i1 and ?i2.0 = i2]
  have "emitsFresh h h'"
    using s(1) f by (rule emitsFresh_trans)
  moreover have "emittedCount h' =
      emittedCount h + length (i0 # i1 # i2 # rest) + 6 * straddleCount n wp ps (i0 # i1 # i2 # rest)"
    unfolding c s(2) by simp
  moreover have "emittedVertices h + mset (map (\<lambda>i. getVertexData i ps ns ts) (i0 # i1 # i2 # rest))
      \<subseteq># emittedVertices h'"
  proof -
    have "emittedVertices h + mset (map (\<lambda>i. getVertexData i ps ns ts) (i0 # i1 # i2 # rest)) =
        (emittedVertices h +
          {#getVertexData i0 ps ns ts, getVertexData i1 ps ns ts, getVertexData i2 ps ns ts#}) +
        mset (map (\<lambda>i. getVertexData i ps ns ts) rest)"
      by (simp add: add_mset_commute)
    also have "\<dots> \<subseteq># emittedVertices ?h1 + mset (map (\<lambda>i. getVertexData i ps ns ts) rest)"
      using s(3) by (simp only: subset_mset.add_right_mono)
    also note m
    finally show ?thesis .
  qed
  ultimately show ?case by blast
next
  case (3 n wp ps ns ts i0 h)
  then show ?case by simp
next
  case (4 n wp ps ns ts i0 i1 h)
  then show ?case by simp
qed

lemma emitsFresh_from_empty:
  assumes "emitsFresh emptyHulls h"
  shows "upperIndices h = [0..<length (upperVertices h)]"
    and "length (upperVertices h) = 3 * (length (upperIndices h) div 3)"
    and "lowerIndices h = [0..<length (lowerVertices h)]"
    and "length (lowerVertices h) = 3 * (length (lowerIndices h) div 3)"
proof -
  from assms obtain newU newL where
    u: "upperVertices h = newU" "3 dvd length newU" "upperIndices h = [0..<length newU]"
    and l: "lowerVertices h = newL" "3 dvd length newL" "lowerIndices h = [0..<length newL]"
    unfolding emitsFresh_def emptyHulls_def by auto
  from u show "upperIndices h = [0..<length (upperVertices h)]"
    and "length (upperVertices h) = 3 * (length (upperIndices h) div 3)"
    by simp_all
  from l show "lowerIndices h = [0..<length (lowerVertices h)]"
    and "length (lowerVertices h) = 3 * (length (lowerIndices h) div 3)"
    by simp_all
qed

lemma shared_loop:
  "\<exists>h. processTriangles planeUp origin (attributeOf tentPositions) None None sharedIndices
          emptyHulls = Inr h \<and>
        map position (upperVertices h) = [(1 / 2, 0, 0), (- 1 / 2, 0, 1 / 2), (0, 1, 0)] \<and>
        map position (lowerVertices h) =
          [(1, - 1, 0), (- 1, - 1, 1), (1 / 2, 0, 0),
           (- 1, - 1, 1), (- 1 / 2, 0, 1 / 2), (1 / 2, 0, 0),
           (1, - 1, 0), (- 1, - 1, - 1), (- 1, - 1, 1)]"
  by (simp add: processTriangle_def classify_def planeUp_def origin_def attributeOf_def
      tentPositions_def sharedIndices_def getVertexData_def emptyHulls_def splitTriangle_def
      splitSorted_def interpolateVertex_def Let_def)

lemma shared_straddleCount:
  "straddleCount planeUp origin (attributeOf tentPositions) sharedIndices = 1"
  by (simp add: sharedIndices_def topologyOf_def classify_def planeUp_def origin_def
      attributeOf_def tentPositions_def)

text \<open>
  Claim C10. Before capping, every round of the loop appends whole triangles of new
  vertices to the hulls, three vertices for an unsplit triangle and nine for a split one,
  with the indices \<open>len\<close>, \<open>len + 1\<close>, \<open>len + 2\<close>, ... of the new vertices. So for an index
  array of whole triangles the loop ends with, in each hull, the index array
  \<open>0, 1, ..., 3T - 1\<close> and three times as many vertices as triangles: no vertex is used by
  two triangles. The two hulls together hold one vertex for every entry of the index
  array and six more for every split triangle, and every entry of the index array has a
  vertex of its own in the output: a source vertex that several triangles share is
  emitted once for each of them.
\<close>

theorem precap_vertices_never_shared:
  assumes "3 dvd length ixs"
  shows "emitsFresh h0 (processTriangle n wp ps ns ts i0 i1 i2 h0) \<and>
         length (upperVertices (processTriangle n wp ps ns ts i0 i1 i2 h0)) +
           length (lowerVertices (processTriangle n wp ps ns ts i0 i1 i2 h0)) =
           length (upperVertices h0) + length (lowerVertices h0) +
           (if topologyOf n wp ps i0 i1 i2 = Straddle then 9 else 3) \<and>
         (\<exists>h. processTriangles n wp ps ns ts ixs emptyHulls = Inr h \<and>
           upperIndices h = [0..<length (upperVertices h)] \<and>
           length (upperVertices h) = 3 * (length (upperIndices h) div 3) \<and>
           distinct (upperIndices h) \<and>
           lowerIndices h = [0..<length (lowerVertices h)] \<and>
           length (lowerVertices h) = 3 * (length (lowerIndices h) div 3) \<and>
           distinct (lowerIndices h) \<and>
           length (upperVertices h) + length (lowerVertices h) =
             length ixs + 6 * straddleCount n wp ps ixs \<and>
           mset (map (\<lambda>i. getVertexData i ps ns ts) ixs) \<subseteq>#
             mset (upperVertices h) + mset (lowerVertices h))"
proof -
  from processTriangles_total [OF assms]
  obtain h where h: "processTriangles n wp ps ns ts ixs emptyHulls = Inr h"
    by blast
  from processTriangles_emits [OF h]
  have f: "emitsFresh emptyHulls h"
    and c: "emittedCount h = emittedCount emptyHulls + length ixs + 6 * straddleCount n wp ps ixs"
    and m: "emittedVertices emptyHulls + mset (map (\<lambda>i. getVertexData i ps ns ts) ixs) \<subseteq>#
           emittedVertices h"
    by blast+
  note e = emitsFresh_from_empty [OF f]
  have d: "distinct (upperIndices h)" "distinct (lowerIndices h)"
    by (simp_all add: e(1) e(3))
  from c have c': "length (upperVertices h) + length (lowerVertices h) =
             length ixs + 6 * straddleCount n wp ps ixs"
    by (simp add: emittedCount_def emptyHulls_def)
  from m have m': "mset (map (\<lambda>i. getVertexData i ps ns ts) ixs) \<subseteq>#
             mset (upperVertices h) + mset (lowerVertices h)"
    by (simp add: emittedVertices_def emptyHulls_def)
  have loop: "\<exists>h. processTriangles n wp ps ns ts ixs emptyHulls = Inr h \<and>
           upperIndices h = [0..<length (upperVertices h)] \<and>
           length (upperVertices h) = 3 * (length (upperIndices h) div 3) \<and>
           distinct (upperIndices h) \<and>
           lowerIndices h = [0..<length (lowerVertices h)] \<and>
           length (lowerVertices h) = 3 * (length (lowerIndices h) div 3) \<and>
           distinct (lowerIndices h) \<and>
           length (upperVertices h) + length (lowerVertices h) =
             length ixs + 6 * straddleCount n wp ps ixs \<and>
           mset (map (\<lambda>i. getVertexData i ps ns ts) ixs) \<subseteq>#
             mset (upperVertices h) + mset (lowerVertices h)"
    using h e d c' m' by blast
  note s = processTriangle_emits [where h = h0 and n = n and wp = wp and ps = ps and ns = ns
      and ts = ts and ?i0.0 = i0 and ?i1.0 = i1 and ?i2.0 = i2]
  from s(2) have step: "length (upperVertices (processTriangle n wp ps ns ts i0 i1 i2 h0)) +
           length (lowerVertices (processTriangle n wp ps ns ts i0 i1 i2 h0)) =
           length (upperVertices h0) + length (lowerVertices h0) +
           (if topologyOf n wp ps i0 i1 i2 = Straddle then 9 else 3)"
    by (simp only: emittedCount_def)
  from s(1) step loop show ?thesis
    by (intro conjI)
qed

theorem precap_vertices_never_shared_witness:
  "3 dvd length sharedIndices \<and>
   straddleCount planeUp origin (attributeOf tentPositions) sharedIndices = 1 \<and>
   (\<exists>h. processTriangles planeUp origin (attributeOf tentPositions) None None sharedIndices
          emptyHulls = Inr h \<and>
        map position (upperVertices h) = [(1 / 2, 0, 0), (- 1 / 2, 0, 1 / 2), (0, 1, 0)] \<and>
        map position (lowerVertices h) =
          [(1, - 1, 0), (- 1, - 1, 1), (1 / 2, 0, 0),
           (- 1, - 1, 1), (- 1 / 2, 0, 1 / 2), (1 / 2, 0, 0),
           (1, - 1, 0), (- 1, - 1, - 1), (- 1, - 1, 1)] \<and>
        upperIndices h = [0..<length (upperVertices h)] \<and>
        lowerIndices h = [0..<length (lowerVertices h)] \<and>
        length (upperVertices h) + length (lowerVertices h) =
          length sharedIndices + 6 * straddleCount planeUp origin (attributeOf tentPositions)
            sharedIndices \<and>
        mset (map (\<lambda>i. getVertexData i (attributeOf tentPositions) None None) sharedIndices) \<subseteq>#
          mset (upperVertices h) + mset (lowerVertices h))"
proof -
  have "length sharedIndices = 3 * 2"
    by (simp add: sharedIndices_def)
  then have d: "3 dvd length sharedIndices"
    by (simp only: dvd_triv_left)
  from precap_vertices_never_shared [OF d, where n = planeUp and wp = origin
      and ps = "attributeOf tentPositions" and ns = None and ts = None]
  obtain h where h: "processTriangles planeUp origin (attributeOf tentPositions) None None
        sharedIndices emptyHulls = Inr h"
    and f: "upperIndices h = [0..<length (upperVertices h)]"
      "lowerIndices h = [0..<length (lowerVertices h)]"
      "length (upperVertices h) + length (lowerVertices h) =
          length sharedIndices + 6 * straddleCount planeUp origin (attributeOf tentPositions)
            sharedIndices"
      "mset (map (\<lambda>i. getVertexData i (attributeOf tentPositions) None None) sharedIndices) \<subseteq>#
          mset (upperVertices h) + mset (lowerVertices h)"
    by blast
  from shared_loop obtain h' where h': "processTriangles planeUp origin
        (attributeOf tentPositions) None None sharedIndices emptyHulls = Inr h'"
    and p: "map position (upperVertices h') = [(1 / 2, 0, 0), (- 1 / 2, 0, 1 / 2), (0, 1, 0)]"
      "map position (lowerVertices h') =
          [(1, - 1, 0), (- 1, - 1, 1), (1 / 2, 0, 0),
           (- 1, - 1, 1), (- 1 / 2, 0, 1 / 2), (1 / 2, 0, 0),
           (1, - 1, 0), (- 1, - 1, - 1), (- 1, - 1, 1)]"
    by (elim exE conjE) (rule that, assumption+)
  from h h' have "h' = h" by simp
  with p have p': "map position (upperVertices h) = [(1 / 2, 0, 0), (- 1 / 2, 0, 1 / 2), (0, 1, 0)]"
      "map position (lowerVertices h) =
          [(1, - 1, 0), (- 1, - 1, 1), (1 / 2, 0, 0),
           (- 1, - 1, 1), (- 1 / 2, 0, 1 / 2), (1 / 2, 0, 0),
           (1, - 1, 0), (- 1, - 1, - 1), (- 1, - 1, 1)]"
    by simp_all
  from d shared_straddleCount h p' f show ?thesis
    by (intro conjI exI [of _ h])
qed

subsection \<open>Splitting\<close>

lemma classify_Straddle_perm:
  "classify x y z = Straddle \<Longrightarrow>
     classify x z y = Straddle \<and> classify y x z = Straddle \<and> classify y z x = Straddle \<and>
     classify z x y = Straddle \<and> classify z y x = Straddle"
  by (simp add: classify_def Let_def add_ac split: if_splits) 

lemma straddle_sorted:
  assumes "classify x y z = Straddle" and "x \<le> y" and "y \<le> z"
  shows "(x < 0 \<and> y < 0 \<and> 0 \<le> z) \<or> (x = 0 \<and> y = 0 \<and> 0 < z) \<or>
         (x < 0 \<and> y = 0 \<and> z = 0) \<or> (x < 0 \<and> 0 < y \<and> 0 < z) \<or> (x = 0 \<and> 0 < y \<and> 0 < z)"
  using assms by (auto simp: classify_def Let_def sgn_real_def split: if_splits)

lemma splitSorted_two_one:
  fixes a b c :: sortItem
  assumes "sgn (sd a) = sgn (sd b)"
  defines "p \<equiv> interpolateVertex (sv a) (sv c) (\<bar>sd a\<bar> / (\<bar>sd a\<bar> + \<bar>sd c\<bar>))"
    and "q \<equiv> interpolateVertex (sv b) (sv c) (\<bar>sd b\<bar> / (\<bar>sd b\<bar> + \<bar>sd c\<bar>))"
  shows "splitSorted a b c h =
     pushContours
       (if sd a < 0
        then addUpper (addLower (addLower h (sv a) (sv b) p) (sv b) q p) p q (sv c)
        else addLower (addUpper (addUpper h (sv a) (sv b) p) (sv b) q p) p q (sv c))
       \<lparr>cposition = position p, edgeVerts = (si a, si c)\<rparr>
       \<lparr>cposition = position q, edgeVerts = (si b, si c)\<rparr>"
  using assms(1) unfolding splitSorted_def p_def q_def Let_def by simp

lemma splitSorted_one_two:
  fixes a b c :: sortItem
  assumes "sgn (sd a) \<noteq> sgn (sd b)"
  defines "p \<equiv> interpolateVertex (sv a) (sv b) (\<bar>sd a\<bar> / (\<bar>sd a\<bar> + \<bar>sd b\<bar>))"
    and "q \<equiv> interpolateVertex (sv a) (sv c) (\<bar>sd a\<bar> / (\<bar>sd a\<bar> + \<bar>sd c\<bar>))"
  shows "splitSorted a b c h =
     pushContours
       (if sd a < 0
        then addUpper (addUpper (addLower h (sv a) p q) p (sv b) (sv c)) p (sv c) q
        else addLower (addLower (addUpper h (sv a) p q) p (sv b) (sv c)) p (sv c) q)
       \<lparr>cposition = position p, edgeVerts = (si a, si b)\<rparr>
       \<lparr>cposition = position q, edgeVerts = (si a, si c)\<rparr>"
  using assms(1) unfolding splitSorted_def p_def q_def Let_def by simp

lemma emits_two_one:
  assumes "sgn (sd a) = sgn (sd b)"
  shows "splitEmits h (splitSorted a b c h) a b c a c b c"
proof (cases "sd a < 0")
  case True
  let ?p = "interpolateVertex (sv a) (sv c) (\<bar>sd a\<bar> / (\<bar>sd a\<bar> + \<bar>sd c\<bar>))"
  let ?q = "interpolateVertex (sv b) (sv c) (\<bar>sd b\<bar> / (\<bar>sd b\<bar> + \<bar>sd c\<bar>))"
  show ?thesis
    unfolding splitEmits_def Let_def splitSorted_two_one [OF assms]
    apply (simp add: True)
    apply blast
    done
next
  case False
  let ?p = "interpolateVertex (sv a) (sv c) (\<bar>sd a\<bar> / (\<bar>sd a\<bar> + \<bar>sd c\<bar>))"
  let ?q = "interpolateVertex (sv b) (sv c) (\<bar>sd b\<bar> / (\<bar>sd b\<bar> + \<bar>sd c\<bar>))"
  show ?thesis
    unfolding splitEmits_def Let_def splitSorted_two_one [OF assms]
    apply (simp add: False)
    apply blast
    done
qed

lemma emits_one_two:
  assumes "sgn (sd a) \<noteq> sgn (sd b)"
  shows "splitEmits h (splitSorted a b c h) b c a a b a c"
proof (cases "sd a < 0")
  case True
  show ?thesis
    unfolding splitEmits_def Let_def splitSorted_one_two [OF assms]
    apply (simp add: True)
    apply blast
    done
next
  case False
  show ?thesis
    unfolding splitEmits_def Let_def splitSorted_one_two [OF assms]
    apply (simp add: False)
    apply blast
    done
qed

lemma isRearrangement_rotate:
  "isRearrangement (a, b, c) e0 e1 e2 \<Longrightarrow> isRearrangement (b, c, a) e0 e1 e2"
  unfolding isRearrangement_def by simp blast

lemma isRearrangement_sets:
  assumes "isRearrangement (a, b, c) e0 e1 e2"
  shows "{a, b, c} = {e0, e1, e2}"
  using assms unfolding isRearrangement_def by simp blast

lemma classify_rearranged:
  assumes "isRearrangement (a, b, c) e0 e1 e2"
    and "classify (sd e0) (sd e1) (sd e2) = Straddle"
  shows "classify (sd a) (sd b) (sd c) = Straddle"
proof -
  from assms(1) consider "a = e0 \<and> b = e1 \<and> c = e2" | "a = e0 \<and> b = e2 \<and> c = e1"
    | "a = e1 \<and> b = e0 \<and> c = e2" | "a = e1 \<and> b = e2 \<and> c = e0"
    | "a = e2 \<and> b = e0 \<and> c = e1" | "a = e2 \<and> b = e1 \<and> c = e0"
    unfolding isRearrangement_def by simp blast
  then show ?thesis
    using classify_Straddle_perm [OF assms(2)] assms(2) by cases simp_all
qed

lemma sorted_straddle_shape:
  assumes str: "classify (sd a) (sd b) (sd c) = Straddle"
    and ab: "sd a \<le> sd b" and bc: "sd b \<le> sd c"
  shows "splitShape h (splitSorted a b c h) a b c a c b c \<or>
         splitShape h (splitSorted a b c h) b c a a b a c"
proof -
  note E21 = emits_two_one [of a b h c] and E12 = emits_one_two [of a b h c]
  from straddle_sorted [OF str ab bc]
  consider (lower2) "sd a < 0" "sd b < 0" "0 \<le> sd c"
    | (plane2) "sd a = 0" "sd b = 0" "0 < sd c"
    | (lower1) "sd a < 0" "sd b = 0" "sd c = 0"
    | (upper2) "sd a < 0" "0 < sd b" "0 < sd c"
    | (plane1) "sd a = 0" "0 < sd b" "0 < sd c"
    by blast
  then show ?thesis
  proof cases
    case lower2
    with E21 have "splitShape h (splitSorted a b c h) a b c a c b c"
      unfolding splitShape_def by (simp add: sgn_real_def)
    then show ?thesis ..
  next
    case plane2
    with E21 have "splitShape h (splitSorted a b c h) a b c a c b c"
      unfolding splitShape_def by (simp add: sgn_real_def)
    then show ?thesis ..
  next
    case lower1
    with E12 have "splitShape h (splitSorted a b c h) b c a a b a c"
      unfolding splitShape_def by (simp add: sgn_real_def)
    then show ?thesis ..
  next
    case upper2
    with E12 have "splitShape h (splitSorted a b c h) b c a a b a c"
      unfolding splitShape_def by (simp add: sgn_real_def)
    then show ?thesis ..
  next
    case plane1
    with E12 have "splitShape h (splitSorted a b c h) b c a a b a c"
      unfolding splitShape_def by (simp add: sgn_real_def)
    then show ?thesis ..
  qed
qed

lemma straddle_split_shape:
  fixes v0 v1 v2 :: SliceVertex and d0 d1 d2 :: real and i0 i1 i2 :: nat
  defines "e0 \<equiv> \<lparr>sv = v0, sd = d0, si = i0\<rparr>"
    and "e1 \<equiv> \<lparr>sv = v1, sd = d1, si = i1\<rparr>"
    and "e2 \<equiv> \<lparr>sv = v2, sd = d2, si = i2\<rparr>"
  assumes str: "classify d0 d1 d2 = Straddle"
  shows "\<exists>a b c x1 y1 x2 y2.
           isRearrangement (a, b, c) e0 e1 e2 \<and>
           (x1, y1, x2, y2) \<in> {(a, c, b, c), (c, a, c, b)} \<and>
           splitShape h (splitTriangle v0 v1 v2 d0 d1 d2 h i0 i1 i2) a b c x1 y1 x2 y2"
proof -
  obtain a b c where srt: "sort_key sd [e0, e1, e2] = [a, b, c]"
    and ab: "sd a \<le> sd b" and bc: "sd b \<le> sd c"
    and perm: "(a, b, c) \<in> {(e0, e1, e2), (e0, e2, e1), (e1, e0, e2), (e1, e2, e0),
                 (e2, e0, e1), (e2, e1, e0)}"
    by (rule sort3_obtain)
  from perm have re: "isRearrangement (a, b, c) e0 e1 e2"
    unfolding isRearrangement_def .
  have split: "splitTriangle v0 v1 v2 d0 d1 d2 h i0 i1 i2 = splitSorted a b c h"
    by (rule splitTriangle_sorted) (use srt in \<open>simp add: e0_def e1_def e2_def\<close>)
  from str have "classify (sd e0) (sd e1) (sd e2) = Straddle"
    by (simp add: e0_def e1_def e2_def)
  with re have "classify (sd a) (sd b) (sd c) = Straddle"
    by (rule classify_rearranged)
  from sorted_straddle_shape [OF this ab bc, of h] show ?thesis
  proof
    assume "splitShape h (splitSorted a b c h) a b c a c b c"
    with re show ?thesis unfolding split by blast
  next
    assume "splitShape h (splitSorted a b c h) b c a a b a c"
    with isRearrangement_rotate [OF re] show ?thesis unfolding split by blast
  qed
qed


lemma getSideOfPlane_lerp3:
  "getSideOfPlane n (lerp3 A B t) wp =
     getSideOfPlane n A wp + (getSideOfPlane n B wp - getSideOfPlane n A wp) * t"
  by (cases n; cases A; cases B; cases wp) (simp add: algebra_simps)

lemma crossing_parameter_on_plane:
  fixes da db :: real
  assumes "da \<le> 0" and "0 \<le> db" and "\<bar>da\<bar> + \<bar>db\<bar> \<noteq> 0"
  shows "da + (db - da) * (\<bar>da\<bar> / (\<bar>da\<bar> + \<bar>db\<bar>)) = 0"
proof -
  from assms have "\<bar>da\<bar> + \<bar>db\<bar> = db - da" and "db - da \<noteq> 0" and "\<bar>da\<bar> = - da"
    by simp_all
  then show ?thesis by simp
qed

lemma interpolateVertex_on_plane:
  assumes "getSideOfPlane n (position u) wp = da" and "getSideOfPlane n (position w) wp = db"
    and "da \<le> 0" and "0 \<le> db" and "\<bar>da\<bar> + \<bar>db\<bar> \<noteq> 0"
  shows "getSideOfPlane n (position (interpolateVertex u w (\<bar>da\<bar> / (\<bar>da\<bar> + \<bar>db\<bar>)))) wp = 0"
  using crossing_parameter_on_plane [OF assms(3-5)]
  by (simp add: interpolateVertex_def getSideOfPlane_lerp3 assms(1,2))

text \<open>
  Claim C3. For a straddling triangle each of the two new vertices \<open>p\<close>, \<open>q\<close> is
  \<open>interpolateVertex\<close> along an edge whose first end is on or below and whose second end is
  on or above the plane, with \<open>t = |d| / (|d| + |d'|)\<close> for the distances \<open>d\<close>, \<open>d'\<close> of
  the two ends, a quotient whose denominator is not zero; its position is the linear
  interpolation of the positions of the ends, and its signed distance to the plane is
  exactly 0.
\<close>

theorem interpolated_vertices_lie_on_plane:
  fixes n wp :: vec3 and v0 v1 v2 :: SliceVertex and i0 i1 i2 :: nat and h :: hulls
  defines "d0 \<equiv> getSideOfPlane n (position v0) wp"
    and "d1 \<equiv> getSideOfPlane n (position v1) wp"
    and "d2 \<equiv> getSideOfPlane n (position v2) wp"
  defines "e0 \<equiv> \<lparr>sv = v0, sd = d0, si = i0\<rparr>"
    and "e1 \<equiv> \<lparr>sv = v1, sd = d1, si = i1\<rparr>"
    and "e2 \<equiv> \<lparr>sv = v2, sd = d2, si = i2\<rparr>"
  defines "h' \<equiv> splitTriangle v0 v1 v2 d0 d1 d2 h i0 i1 i2"
  assumes str: "classify d0 d1 d2 = Straddle"
  shows "\<exists>x1 y1 x2 y2 p q.
           {x1, y1, x2, y2} \<subseteq> {e0, e1, e2} \<and>
           sd x1 \<le> 0 \<and> 0 \<le> sd y1 \<and> \<bar>sd x1\<bar> + \<bar>sd y1\<bar> \<noteq> 0 \<and>
           sd x2 \<le> 0 \<and> 0 \<le> sd y2 \<and> \<bar>sd x2\<bar> + \<bar>sd y2\<bar> \<noteq> 0 \<and>
           p = interpolateVertex (sv x1) (sv y1) (\<bar>sd x1\<bar> / (\<bar>sd x1\<bar> + \<bar>sd y1\<bar>)) \<and>
           q = interpolateVertex (sv x2) (sv y2) (\<bar>sd x2\<bar> / (\<bar>sd x2\<bar> + \<bar>sd y2\<bar>)) \<and>
           position p =
             lerp3 (position (sv x1)) (position (sv y1)) (\<bar>sd x1\<bar> / (\<bar>sd x1\<bar> + \<bar>sd y1\<bar>)) \<and>
           position q =
             lerp3 (position (sv x2)) (position (sv y2)) (\<bar>sd x2\<bar> / (\<bar>sd x2\<bar> + \<bar>sd y2\<bar>)) \<and>
           upperContour h' = upperContour h @
             [\<lparr>cposition = position p, edgeVerts = (si x1, si y1)\<rparr>,
              \<lparr>cposition = position q, edgeVerts = (si x2, si y2)\<rparr>] \<and>
           lowerContour h' = lowerContour h @
             [\<lparr>cposition = position p, edgeVerts = (si x1, si y1)\<rparr>,
              \<lparr>cposition = position q, edgeVerts = (si x2, si y2)\<rparr>] \<and>
           set (drop (length (upperVertices h)) (upperVertices h')) \<union>
             set (drop (length (lowerVertices h)) (lowerVertices h')) = {v0, v1, v2, p, q} \<and>
           getSideOfPlane n (position p) wp = 0 \<and>
           getSideOfPlane n (position q) wp = 0"
proof -
  from straddle_split_shape [OF str, of v0 i0 v1 i1 v2 i2 h]
  obtain a b c x1 y1 x2 y2 where
    re: "isRearrangement (a, b, c) e0 e1 e2"
    and edges: "(x1, y1, x2, y2) \<in> {(a, c, b, c), (c, a, c, b)}"
    and shape: "splitShape h h' a b c x1 y1 x2 y2"
    unfolding e0_def e1_def e2_def h'_def by blast
  define p where "p = interpolateVertex (sv x1) (sv y1) (\<bar>sd x1\<bar> / (\<bar>sd x1\<bar> + \<bar>sd y1\<bar>))"
  define q where "q = interpolateVertex (sv x2) (sv y2) (\<bar>sd x2\<bar> / (\<bar>sd x2\<bar> + \<bar>sd y2\<bar>))"
  have abc: "{a, b, c} = {e0, e1, e2}"
    using re by (rule isRearrangement_sets)
  have dist: "getSideOfPlane n (position (sv x)) wp = sd x" if "x \<in> {e0, e1, e2}" for x
    using that by (auto simp: e0_def e1_def e2_def d0_def d1_def d2_def)
  from edges abc have mem: "x1 \<in> {e0, e1, e2}" "y1 \<in> {e0, e1, e2}"
    "x2 \<in> {e0, e1, e2}" "y2 \<in> {e0, e1, e2}"
    by auto
  from shape have sides:
    "sd x1 \<le> 0" "0 \<le> sd y1" "\<bar>sd x1\<bar> + \<bar>sd y1\<bar> \<noteq> 0"
    "sd x2 \<le> 0" "0 \<le> sd y2" "\<bar>sd x2\<bar> + \<bar>sd y2\<bar> \<noteq> 0"
    and emits: "splitEmits h h' a b c x1 y1 x2 y2"
    unfolding splitShape_def by blast+
  from emits obtain newU newL where
    uc: "upperContour h' = upperContour h @
             [\<lparr>cposition = position p, edgeVerts = (si x1, si y1)\<rparr>,
              \<lparr>cposition = position q, edgeVerts = (si x2, si y2)\<rparr>]"
    and lc: "lowerContour h' = lowerContour h @
             [\<lparr>cposition = position p, edgeVerts = (si x1, si y1)\<rparr>,
              \<lparr>cposition = position q, edgeVerts = (si x2, si y2)\<rparr>]"
    and uv: "upperVertices h' = upperVertices h @ newU"
    and lv: "lowerVertices h' = lowerVertices h @ newL"
    and new: "set newU \<union> set newL = {sv a, sv b, sv c, p, q}"
    unfolding splitEmits_def Let_def p_def q_def by blast
  have "sv ` {a, b, c} = sv ` {e0, e1, e2}"
    by (simp only: abc)
  then have "{sv a, sv b, sv c} = {v0, v1, v2}"
    by (simp add: e0_def e1_def e2_def)
  with new have new': "set newU \<union> set newL = {v0, v1, v2, p, q}"
    by auto
  have verts: "set (drop (length (upperVertices h)) (upperVertices h')) \<union>
             set (drop (length (lowerVertices h)) (lowerVertices h')) = {v0, v1, v2, p, q}"
    by (simp add: uv lv new')
  have pp: "position p =
      lerp3 (position (sv x1)) (position (sv y1)) (\<bar>sd x1\<bar> / (\<bar>sd x1\<bar> + \<bar>sd y1\<bar>))"
    and pq: "position q =
      lerp3 (position (sv x2)) (position (sv y2)) (\<bar>sd x2\<bar> / (\<bar>sd x2\<bar> + \<bar>sd y2\<bar>))"
    by (simp_all add: p_def q_def interpolateVertex_def)
  have zp: "getSideOfPlane n (position p) wp = 0"
    unfolding p_def
    by (rule interpolateVertex_on_plane [OF dist [OF mem(1)] dist [OF mem(2)] sides(1-3)])
  have zq: "getSideOfPlane n (position q) wp = 0"
    unfolding q_def
    by (rule interpolateVertex_on_plane [OF dist [OF mem(3)] dist [OF mem(4)] sides(4-6)])
  from mem have sub: "{x1, y1, x2, y2} \<subseteq> {e0, e1, e2}"
    by simp
  show ?thesis
    apply (rule exI [of _ x1], rule exI [of _ y1], rule exI [of _ x2], rule exI [of _ y2])
    apply (rule exI [of _ p], rule exI [of _ q])
    apply (intro conjI)
    apply (rule sub sides p_def q_def pp pq uc lc verts zp zq)+
    done
qed

theorem interpolated_vertices_lie_on_plane_witness:
  "classify (windingDistance 0) (windingDistance 1) (windingDistance 2) = Straddle \<and>
   (\<exists>p q.
      set (upperVertices (splitTriangle (windingVertex 0) (windingVertex 1) (windingVertex 2)
            (windingDistance 0) (windingDistance 1) (windingDistance 2) emptyHulls 0 1 2)) \<union>
      set (lowerVertices (splitTriangle (windingVertex 0) (windingVertex 1) (windingVertex 2)
            (windingDistance 0) (windingDistance 1) (windingDistance 2) emptyHulls 0 1 2)) =
        {windingVertex 0, windingVertex 1, windingVertex 2, p, q} \<and>
      getSideOfPlane planeUp (position p) origin = 0 \<and>
      getSideOfPlane planeUp (position q) origin = 0)"
proof -
  have s: "classify (getSideOfPlane planeUp (position (windingVertex 0)) origin)
      (getSideOfPlane planeUp (position (windingVertex 1)) origin)
      (getSideOfPlane planeUp (position (windingVertex 2)) origin) = Straddle"
    by (simp add: windingVertex_def windingTriangle_def attributeOf_def planeUp_def origin_def
        getVertexData_def classify_def)
  from interpolated_vertices_lie_on_plane
    [where h = emptyHulls and ?i0.0 = 0 and ?i1.0 = 1 and ?i2.0 = 2, OF s]
  obtain p q where
    "set (drop (length (upperVertices emptyHulls))
        (upperVertices (splitTriangle (windingVertex 0) (windingVertex 1) (windingVertex 2)
            (windingDistance 0) (windingDistance 1) (windingDistance 2) emptyHulls 0 1 2))) \<union>
     set (drop (length (lowerVertices emptyHulls))
        (lowerVertices (splitTriangle (windingVertex 0) (windingVertex 1) (windingVertex 2)
            (windingDistance 0) (windingDistance 1) (windingDistance 2) emptyHulls 0 1 2))) =
       {windingVertex 0, windingVertex 1, windingVertex 2, p, q}"
    "getSideOfPlane planeUp (position p) origin = 0"
    "getSideOfPlane planeUp (position q) origin = 0"
    unfolding windingDistance_def [symmetric] by (elim exE conjE) (rule that, assumption+)
  then have "set (upperVertices (splitTriangle (windingVertex 0) (windingVertex 1) (windingVertex 2)
            (windingDistance 0) (windingDistance 1) (windingDistance 2) emptyHulls 0 1 2)) \<union>
      set (lowerVertices (splitTriangle (windingVertex 0) (windingVertex 1) (windingVertex 2)
            (windingDistance 0) (windingDistance 1) (windingDistance 2) emptyHulls 0 1 2)) =
        {windingVertex 0, windingVertex 1, windingVertex 2, p, q} \<and>
      getSideOfPlane planeUp (position p) origin = 0 \<and>
      getSideOfPlane planeUp (position q) origin = 0"
    by (simp add: emptyHulls_def)
  then have "\<exists>p q. set (upperVertices (splitTriangle (windingVertex 0) (windingVertex 1) (windingVertex 2)
            (windingDistance 0) (windingDistance 1) (windingDistance 2) emptyHulls 0 1 2)) \<union>
      set (lowerVertices (splitTriangle (windingVertex 0) (windingVertex 1) (windingVertex 2)
            (windingDistance 0) (windingDistance 1) (windingDistance 2) emptyHulls 0 1 2)) =
        {windingVertex 0, windingVertex 1, windingVertex 2, p, q} \<and>
      getSideOfPlane planeUp (position p) origin = 0 \<and>
      getSideOfPlane planeUp (position q) origin = 0"
    by blast
  with s show ?thesis
    unfolding windingDistance_def [symmetric] by (rule conjI)
qed

text \<open>
  Claim C4 asks that every triangle a split emits winds as the triangle it was cut from.
  \<open>splitTriangle\<close> emits its triangles in the order of the vertices sorted by distance. For
  the triangle with distances -1, 2, 1 the sorted order exchanges two vertices, and all
  three emitted triangles wind the other way: their face normals point along -z, the
  face normal of the triangle along +z.
\<close>

theorem split_reverses_winding:
  "classify (getSideOfPlane planeUp (attributeOf windingTriangle 0) origin)
     (getSideOfPlane planeUp (attributeOf windingTriangle 1) origin)
     (getSideOfPlane planeUp (attributeOf windingTriangle 2) origin) = Straddle \<and>
   map position (lowerVertices windingResult) =
     [(0, - 1, 0), (- 1 / 2, 0, 0), (1 / 3, 0, 0)] \<and>
   map position (upperVertices windingResult) =
     [(- 1 / 2, 0, 0), (- 1, 1, 0), (1, 2, 0), (- 1 / 2, 0, 0), (1, 2, 0), (1 / 3, 0, 0)] \<and>
   faceNormal (0, - 1, 0) (1, 2, 0) (- 1, 1, 0) = (0, 0, 5) \<and>
   faceNormal (0, - 1, 0) (- 1 / 2, 0, 0) (1 / 3, 0, 0) = (0, 0, - 5 / 6) \<and>
   faceNormal (- 1 / 2, 0, 0) (- 1, 1, 0) (1, 2, 0) = (0, 0, - 5 / 2) \<and>
   faceNormal (- 1 / 2, 0, 0) (1, 2, 0) (1 / 3, 0, 0) = (0, 0, - 5 / 3) \<and>
   \<not> sameWinding windingTriangle (map position (lowerVertices windingResult)) \<and>
   \<not> sameWinding windingTriangle (take 3 (map position (upperVertices windingResult))) \<and>
   \<not> sameWinding windingTriangle (drop 3 (map position (upperVertices windingResult)))"
proof -
  have l: "map position (lowerVertices windingResult) =
      [(0, - 1, 0), (- 1 / 2, 0, 0), (1 / 3, 0, 0)]"
    and u: "map position (upperVertices windingResult) =
      [(- 1 / 2, 0, 0), (- 1, 1, 0), (1, 2, 0), (- 1 / 2, 0, 0), (1, 2, 0), (1 / 3, 0, 0)]"
    by (simp_all add: windingResult_def processTriangle_def planeUp_def origin_def attributeOf_def
        windingTriangle_def getVertexData_def classify_def splitTriangle_def splitSorted_def
        interpolateVertex_def emptyHulls_def Let_def)
  show ?thesis
    unfolding l u
    by (simp add: sameWinding_def faceNormal_def windingTriangle_def planeUp_def origin_def
        attributeOf_def classify_def)
qed

subsection \<open>The cap\<close>

lemma isDuplicateOf_sqDist:
  "isDuplicateOf pt existing \<longleftrightarrow> sqDist (cposition existing) (cposition pt) < epsilon * epsilon"
  by (cases "cposition existing"; cases "cposition pt") (simp add: isDuplicateOf_def Let_def)

lemma dedupLoop_append:
  "dedupLoop (xs @ ys) u = dedupLoop ys (dedupLoop xs u)"
  by (induction xs arbitrary: u) simp_all

lemma dedupContour_snoc:
  "dedupContour (xs @ [pt]) =
     (if list_ex (isDuplicateOf pt) (dedupContour xs) then dedupContour xs
      else dedupContour xs @ [pt])"
  by (simp add: dedupContour_def dedupLoop_append)

lemma separated_snoc:
  assumes "separated u" and "\<not> list_ex (isDuplicateOf pt) u"
  shows "separated (u @ [pt])"
  unfolding separated_def
proof (intro allI impI)
  fix j i
  assume j: "j < length (u @ [pt])" and i: "i < j"
  show "\<not> isDuplicateOf ((u @ [pt]) ! j) ((u @ [pt]) ! i)"
  proof (cases "j < length u")
    case True
    with i assms(1) show ?thesis
      by (simp add: separated_def nth_append)
  next
    case False
    with j have "j = length u" by simp
    with i assms(2) show ?thesis
      by (simp add: nth_append list_ex_iff)
  qed
qed

lemma separated_dedupLoop:
  "separated u \<Longrightarrow> separated (dedupLoop xs u)"
proof (induction xs arbitrary: u)
  case Nil
  then show ?case by simp
next
  case (Cons pt xs)
  show ?case
  proof (cases "list_ex (isDuplicateOf pt) u")
    case True
    with Cons show ?thesis by simp
  next
    case False
    with Cons.prems have "separated (u @ [pt])"
      by (intro separated_snoc)
    from Cons.IH [OF this] False show ?thesis by simp
  qed
qed

lemma dedupLoop_keeps:
  "set u \<subseteq> set (dedupLoop xs u)"
proof (induction xs arbitrary: u)
  case Nil
  show ?case by simp
next
  case (Cons pt xs)
  have "set u \<subseteq> set (if list_ex (isDuplicateOf pt) u then u else u @ [pt])"
    by auto
  also have "\<dots> \<subseteq> set (dedupLoop (pt # xs) u)"
    using Cons [of "if list_ex (isDuplicateOf pt) u then u else u @ [pt]"] by simp
  finally show ?case .
qed

lemma dedupLoop_covers:
  "pt \<in> set xs \<Longrightarrow>
     pt \<in> set (dedupLoop xs u) \<or> (\<exists>e \<in> set (dedupLoop xs u). isDuplicateOf pt e)"
proof (induction xs arbitrary: u)
  case Nil
  then show ?case by simp
next
  case (Cons x xs)
  let ?u = "if list_ex (isDuplicateOf x) u then u else u @ [x]"
  show ?case
  proof (cases "pt \<in> set xs")
    case True
    from Cons.IH [OF this, of ?u] show ?thesis by simp
  next
    case False
    with Cons.prems have [simp]: "pt = x" by simp
    have "x \<in> set ?u \<or> (\<exists>e \<in> set ?u. isDuplicateOf x e)"
      by (auto simp: list_ex_iff)
    with dedupLoop_keeps [of ?u xs] show ?thesis
      by auto
  qed
qed

lemma length_dedupLoop_le: "length (dedupLoop xs u) \<le> length u + length xs"
proof (induction xs arbitrary: u)
  case Nil
  show ?case by simp
next
  case (Cons x xs)
  from Cons [of "if list_ex (isDuplicateOf x) u then u else u @ [x]"]
  show ?case by (simp split: if_splits)
qed

lemma generateCap_few:
  assumes "length (dedupContour contour) < 3"
  shows "generateCap n (vs, ixs) contour isUpper = (vs, ixs)"
  using assms by (simp add: generateCap_def Let_def)

lemma fold_push_one:
  "fold (\<lambda>i acc. acc @ [f i]) xs acc = acc @ map f xs"
  by (induction xs arbitrary: acc) simp_all

lemma fold_push_many:
  "fold (\<lambda>i acc. acc @ f i) xs acc = acc @ concat (map f xs)"
  by (induction xs arbitrary: acc) simp_all

lemma fold_addPosition:
  "fold addPosition u (cx, cy, cz) =
     (cx + sum_list (map (\<lambda>pt. fst (cposition pt)) u),
      cy + sum_list (map (\<lambda>pt. fst (snd (cposition pt))) u),
      cz + sum_list (map (\<lambda>pt. snd (snd (cposition pt))) u))"
proof (induction u arbitrary: cx cy cz)
  case Nil
  show ?case by simp
next
  case (Cons pt u)
  obtain x y z where p: "cposition pt = (x, y, z)"
    by (cases "cposition pt")
  show ?case
    by (simp add: p Cons.IH add.assoc)
qed

lemma centroidOf_mean:
  "centroidOf u =
     (sum_list (map (\<lambda>pt. fst (cposition pt)) u) / real (length u),
      sum_list (map (\<lambda>pt. fst (snd (cposition pt))) u) / real (length u),
      sum_list (map (\<lambda>pt. snd (snd (cposition pt))) u) / real (length u))"
  by (simp add: centroidOf_def fold_addPosition)

lemma length_concat_fan:
  "length (concat (map (fanTriangle isUpper b s len) xs)) = 3 * length xs"
  by (induction xs) (simp_all add: fanTriangle_def Let_def)

lemma dedup_triContour:
  "dedupContour triContour =
     [\<lparr>cposition = (1, 0, 0), edgeVerts = (0, 1)\<rparr>,
      \<lparr>cposition = (0, 0, 1), edgeVerts = (0, 3)\<rparr>,
      \<lparr>cposition = (- 1, 0, 0), edgeVerts = (0, 4)\<rparr>]"
  by (simp add: dedupContour_def triContour_def isDuplicateOf_def epsilon_def)

lemma dedup_nearContour:
  "dedupContour nearContour =
     [\<lparr>cposition = (1, 0, 0), edgeVerts = (0, 1)\<rparr>,
      \<lparr>cposition = (0, 0, 1), edgeVerts = (0, 3)\<rparr>]"
  by (simp add: dedupContour_def nearContour_def isDuplicateOf_def epsilon_def)

text \<open>
  Claim C5. With at least three deduplicated contour points \<open>u\<close>, \<open>generateCap\<close> appends one
  vertex at the arithmetic mean of the positions of \<open>u\<close> and one vertex for each point
  of \<open>u\<close>, all with the cap normal (the plane normal for the upper hull, its negation
  for the lower hull) and the texture coordinate (1/2, 1/2), and \<open>length u\<close> triangles
  (centroid, \<open>u[i]\<close>, \<open>u[(i + 1) mod length u]\<close>), the last two indices exchanged for the
  lower hull.
\<close>

theorem cap_is_centroid_fan:
  fixes n :: vec3 and vs :: "SliceVertex list" and ixs :: "nat list"
    and contour :: "ContourPoint list" and isUpper :: bool
  defines "u \<equiv> dedupContour contour"
  defines "capNormal \<equiv>
      (if isUpper then n else (- fst n, - fst (snd n), - snd (snd n)))"
  defines "b \<equiv> length vs"
  assumes "3 \<le> length u"
  shows "generateCap n (vs, ixs) contour isUpper =
           (vs @ \<lparr>position = centroidOf u, normal = Some capNormal, texCoord = Some (1 / 2, 1 / 2)\<rparr>
               # map (\<lambda>pt. \<lparr>position = cposition pt, normal = Some capNormal,
                              texCoord = Some (1 / 2, 1 / 2)\<rparr>) u,
            ixs @ concat (map (\<lambda>i. if isUpper
                                     then [b, b + 1 + i, b + 1 + (i + 1) mod length u]
                                     else [b, b + 1 + (i + 1) mod length u, b + 1 + i])
                            [0..<length u])) \<and>
         centroidOf u =
           (sum_list (map (\<lambda>pt. fst (cposition pt)) u) / real (length u),
            sum_list (map (\<lambda>pt. fst (snd (cposition pt))) u) / real (length u),
            sum_list (map (\<lambda>pt. snd (snd (cposition pt))) u) / real (length u)) \<and>
         length (snd (generateCap n (vs, ixs) contour isUpper)) = length ixs + 3 * length u \<and>
         length (fst (generateCap n (vs, ixs) contour isUpper)) = length vs + 1 + length u"
proof -
  have cn: "capNormalOf n isUpper = capNormal"
    by (cases n) (simp add: capNormal_def)
  have len: "\<not> length contour < 3"
    using assms(4) length_dedupLoop_le [of contour "[]"]
    by (simp add: u_def dedupContour_def)
  have verts: "map (\<lambda>i. capVertex (cposition (u ! i)) capNormal) [0..<length u] =
      map (\<lambda>pt. capVertex (cposition pt) capNormal) u"
    by (rule nth_equalityI) simp_all
  have fan: "fanTriangle isUpper (length vs) (Suc (length vs)) (length u) =
      (\<lambda>i. if isUpper then [b, b + 1 + i, b + 1 + (i + 1) mod length u]
            else [b, b + 1 + (i + 1) mod length u, b + 1 + i])"
    by (rule ext) (simp add: fanTriangle_def Let_def b_def)
  have cap: "generateCap n (vs, ixs) contour isUpper =
      (vs @ capVertex (centroidOf u) capNormal # map (\<lambda>pt. capVertex (cposition pt) capNormal) u,
       ixs @ concat (map (\<lambda>i. if isUpper
                                     then [b, b + 1 + i, b + 1 + (i + 1) mod length u]
                                     else [b, b + 1 + (i + 1) mod length u, b + 1 + i])
                            [0..<length u]))"
    using assms(4) len
    unfolding generateCap_def Let_def u_def [symmetric] cn
    by (simp add: fold_push_one fold_push_many verts fan)
  have l1: "length (concat (map (\<lambda>i. if isUpper
                                     then [b, b + 1 + i, b + 1 + (i + 1) mod length u]
                                     else [b, b + 1 + (i + 1) mod length u, b + 1 + i])
                            [0..<length u])) = 3 * length u"
    using length_concat_fan [of isUpper "length vs" "Suc (length vs)" "length u" "[0..<length u]"]
    unfolding fan by simp
  show ?thesis
    unfolding cap
    by (simp add: centroidOf_mean capVertex_def l1)
qed

theorem cap_is_centroid_fan_witness:
  "3 \<le> length (dedupContour triContour) \<and>
   generateCap planeUp ([], []) triContour False =
     ([\<lparr>position = (0, 0, 1 / 3), normal = Some (0, - 1, 0), texCoord = Some (1 / 2, 1 / 2)\<rparr>,
       \<lparr>position = (1, 0, 0), normal = Some (0, - 1, 0), texCoord = Some (1 / 2, 1 / 2)\<rparr>,
       \<lparr>position = (0, 0, 1), normal = Some (0, - 1, 0), texCoord = Some (1 / 2, 1 / 2)\<rparr>,
       \<lparr>position = (- 1, 0, 0), normal = Some (0, - 1, 0), texCoord = Some (1 / 2, 1 / 2)\<rparr>],
      [0, 2, 1, 0, 3, 2, 0, 1, 3])"
proof -
  have three: "3 \<le> length (dedupContour triContour)"
    by (simp add: dedup_triContour)
  have upt3: "[0..<3] = [0, 1, 2]"
    by (simp add: upt_conv_Cons)
  from cap_is_centroid_fan [OF three, of planeUp "[]" "[]" False]
  have "generateCap planeUp ([], []) triContour False =
     ([\<lparr>position = (0, 0, 1 / 3), normal = Some (0, - 1, 0), texCoord = Some (1 / 2, 1 / 2)\<rparr>,
       \<lparr>position = (1, 0, 0), normal = Some (0, - 1, 0), texCoord = Some (1 / 2, 1 / 2)\<rparr>,
       \<lparr>position = (0, 0, 1), normal = Some (0, - 1, 0), texCoord = Some (1 / 2, 1 / 2)\<rparr>,
       \<lparr>position = (- 1, 0, 0), normal = Some (0, - 1, 0), texCoord = Some (1 / 2, 1 / 2)\<rparr>],
      [0, 2, 1, 0, 3, 2, 0, 1, 3])"
    by (simp add: dedup_triContour planeUp_def upt3)
  with three show ?thesis ..
qed

text \<open>
  Claim C6. \<open>generateCap\<close> deduplicates the contour from left to right: a point is kept
  unless its squared distance to a point kept before it is below \<open>epsilon * epsilon\<close>,
  with \<open>epsilon = 0.0001\<close>, and a kept point is never removed. The kept points are
  pairwise no duplicates, and every point of the contour is kept or is a duplicate of a
  kept one. With fewer than three kept points \<open>generateCap\<close> returns the vertex and index
  arrays unchanged.
\<close>

theorem cap_dedup_first_seen_wins:
  "dedupContour [] = [] \<and>
   dedupContour (xs @ [pt]) =
     (if list_ex (isDuplicateOf pt) (dedupContour xs) then dedupContour xs
      else dedupContour xs @ [pt]) \<and>
   (isDuplicateOf pt existing \<longleftrightarrow>
      sqDist (cposition existing) (cposition pt) < epsilon * epsilon) \<and>
   epsilon = 1 / 10000 \<and>
   separated (dedupContour contour) \<and>
   (\<forall>p \<in> set contour. p \<in> set (dedupContour contour) \<or>
      (\<exists>e \<in> set (dedupContour contour). isDuplicateOf p e)) \<and>
   (length (dedupContour contour) < 3 \<longrightarrow>
      generateCap n (vs, ixs) contour isUpper = (vs, ixs))"
proof -
  have "separated (dedupContour contour)"
    unfolding dedupContour_def
    by (rule separated_dedupLoop) (simp add: separated_def)
  moreover have "\<forall>p \<in> set contour. p \<in> set (dedupContour contour) \<or>
      (\<exists>e \<in> set (dedupContour contour). isDuplicateOf p e)"
    unfolding dedupContour_def using dedupLoop_covers by blast
  moreover have "dedupContour [] = []"
    by (simp add: dedupContour_def)
  ultimately show ?thesis
    using dedupContour_snoc [of xs pt] isDuplicateOf_sqDist [of pt existing]
      generateCap_few [of contour n vs ixs isUpper]
    by (simp add: epsilon_def)
qed

theorem cap_dedup_first_seen_wins_witness:
  "dedupContour nearContour =
     [\<lparr>cposition = (1, 0, 0), edgeVerts = (0, 1)\<rparr>,
      \<lparr>cposition = (0, 0, 1), edgeVerts = (0, 3)\<rparr>] \<and>
   length (dedupContour nearContour) < 3 \<and>
   generateCap planeUp
     ([\<lparr>position = (0, 1, 0), normal = None, texCoord = None\<rparr>], [0]) nearContour True =
     ([\<lparr>position = (0, 1, 0), normal = None, texCoord = None\<rparr>], [0])"
proof -
  have few: "length (dedupContour nearContour) < 3"
    by (simp add: dedup_nearContour)
  from cap_dedup_first_seen_wins
    [of _ _ _ nearContour planeUp "[\<lparr>position = (0, 1, 0), normal = None, texCoord = None\<rparr>]"
      "[0]" True]
  have "length (dedupContour nearContour) < 3 \<longrightarrow>
      generateCap planeUp
        ([\<lparr>position = (0, 1, 0), normal = None, texCoord = None\<rparr>], [0]) nearContour True =
        ([\<lparr>position = (0, 1, 0), normal = None, texCoord = None\<rparr>], [0])"
    by blast
  with few dedup_nearContour show ?thesis
    by blast
qed

subsection \<open>\<open>update\<close>\<close>

text \<open>\<open>checkForSlicableObjects\<close> returns no object, so \<open>update\<close> resets \<open>isTouched\<close> and
  reaches \<open>sliceMesh\<close> for no object.\<close>

lemma update_slices_nothing: "update layout n isTouched = (False, Inr [])"
  by (simp add: update_def checkForSlicableObjects_def)

subsection \<open>A plane that misses the mesh\<close>

lemma strictlyAbove_AllAbove:
  "strictlyAbove n wp ps i0 i1 i2 \<Longrightarrow> topologyOf n wp ps i0 i1 i2 = AllAbove"
  by (simp add: strictlyAbove_def topologyOf_def classify_def)

lemma strictlyBelow_AllBelow:
  "strictlyBelow n wp ps i0 i1 i2 \<Longrightarrow> topologyOf n wp ps i0 i1 i2 = AllBelow"
  by (simp add: strictlyBelow_def topologyOf_def classify_def)

lemma processTriangle_upper:
  assumes "strictlyAbove n wp ps i0 i1 i2"
  shows "processTriangle n wp ps ns ts i0 i1 i2 h =
     addUpper h (getVertexData i0 ps ns ts) (getVertexData i1 ps ns ts) (getVertexData i2 ps ns ts)"
  using strictlyAbove_AllAbove [OF assms] unfolding topologyOf_def processTriangle_def Let_def
  by (simp add: getVertexData_def)

lemma processTriangle_lower:
  assumes "strictlyBelow n wp ps i0 i1 i2"
  shows "processTriangle n wp ps ns ts i0 i1 i2 h =
     addLower h (getVertexData i0 ps ns ts) (getVertexData i1 ps ns ts) (getVertexData i2 ps ns ts)"
  using strictlyBelow_AllBelow [OF assms] unfolding topologyOf_def processTriangle_def Let_def
  by (simp add: getVertexData_def)

lemma processTriangles_all_upper:
  assumes "allTriangles (strictlyAbove n wp ps) ixs"
  shows "\<exists>h'. processTriangles n wp ps ns ts ixs h = Inr h' \<and>
           upperVertices h' = upperVertices h @ map (\<lambda>i. getVertexData i ps ns ts) ixs \<and>
           lowerVertices h' = lowerVertices h \<and> lowerIndices h' = lowerIndices h \<and>
           upperContour h' = upperContour h \<and> lowerContour h' = lowerContour h"
  using assms
proof (induction n wp ps ns ts ixs h rule: processTriangles.induct)
  case (1 n wp ps ns ts h)
  show ?case by simp
next
  case (2 n wp ps ns ts i0 i1 i2 rest h)
  from 2(2) have here: "strictlyAbove n wp ps i0 i1 i2"
    and rest: "allTriangles (strictlyAbove n wp ps) rest"
    by simp_all
  from 2(1) [OF rest] show ?case
    by (simp add: processTriangle_upper [OF here])
next
  case (3 n wp ps ns ts i0 h)
  then show ?case by simp
next
  case (4 n wp ps ns ts i0 i1 h)
  then show ?case by simp
qed

lemma processTriangles_all_lower:
  assumes "allTriangles (strictlyBelow n wp ps) ixs"
  shows "\<exists>h'. processTriangles n wp ps ns ts ixs h = Inr h' \<and>
           lowerVertices h' = lowerVertices h @ map (\<lambda>i. getVertexData i ps ns ts) ixs \<and>
           upperVertices h' = upperVertices h \<and> upperIndices h' = upperIndices h \<and>
           upperContour h' = upperContour h \<and> lowerContour h' = lowerContour h"
  using assms
proof (induction n wp ps ns ts ixs h rule: processTriangles.induct)
  case (1 n wp ps ns ts h)
  show ?case by simp
next
  case (2 n wp ps ns ts i0 i1 i2 rest h)
  from 2(2) have here: "strictlyBelow n wp ps i0 i1 i2"
    and rest: "allTriangles (strictlyBelow n wp ps) rest"
    by simp_all
  from 2(1) [OF rest] show ?case
    by (simp add: processTriangle_lower [OF here])
next
  case (3 n wp ps ns ts i0 h)
  then show ?case by simp
next
  case (4 n wp ps ns ts i0 i1 h)
  then show ?case by simp
qed

lemma sliceMesh_empty_hull:
  assumes "processTriangles n wp ps ns ts ixs emptyHulls = Inr h"
    and "upperVertices h = [] \<or> lowerVertices h = []"
  shows "sliceMesh layout n wp (Some ps) ns ts (Some ixs) =
           Inr \<lparr>warnings = [emptyMeshWarning], sliceResult = None\<rparr>"
    and "sliceCallback layout n
           \<lparr>positionWorld = wp,
            objectMesh = Some \<lparr>meshPositions = Some ps, meshNormals = ns, meshTexCoords = ts,
                               meshIndices = Some ixs\<rparr>\<rparr> =
           Inr [ConsoleWarn emptyMeshWarning]"
proof -
  from assms have "sliceMeshArrays n wp (Some ps) ns ts (Some ixs) =
      Inr \<lparr>warnings = [emptyMeshWarning], sliceResult = None\<rparr>"
    by (auto simp: sliceMeshArrays_def)
  then show s: "sliceMesh layout n wp (Some ps) ns ts (Some ixs) =
           Inr \<lparr>warnings = [emptyMeshWarning], sliceResult = None\<rparr>"
    by (simp add: sliceMesh_def)
  show "sliceCallback layout n
           \<lparr>positionWorld = wp,
            objectMesh = Some \<lparr>meshPositions = Some ps, meshNormals = ns, meshTexCoords = ts,
                               meshIndices = Some ixs\<rparr>\<rparr> =
           Inr [ConsoleWarn emptyMeshWarning]"
    by (simp add: sliceCallback_def s)
qed

text \<open>
  Claim C7 says that a cut that misses the mesh produces one hull with all the geometry
  and one empty hull. \<open>sliceMesh\<close> tests the two vertex arrays after the loop and, when
  one is empty, warns and returns \<open>null\<close>: for the triangle above the plane no hull is
  returned.
\<close>

theorem no_hull_for_degenerate_cut:
  "sliceMesh fullLayout planeUp origin (Some (attributeOf aboveTriangle)) None None
     (Some [0, 1, 2]) =
     Inr \<lparr>warnings = [emptyMeshWarning], sliceResult = None\<rparr>"
  by (simp add: sliceMesh_def sliceMeshArrays_def processTriangle_def classify_def planeUp_def
      origin_def attributeOf_def aboveTriangle_def getVertexData_def emptyHulls_def)

text \<open>
  Claim C7 as amended. When the plane does not meet the mesh, every vertex of every
  triangle being strictly above it or every vertex strictly below it, the loop ends with
  all vertices of the mesh, in the order of the index array, in the vertex array of that
  side and with the other vertex array and both contours empty; \<open>sliceMesh\<close> then gives
  one warning and returns \<open>null\<close>, without an error and without creating a hull; and the
  callback of \<open>update\<close>, which called it, does nothing more than that warning: it makes no
  hull physical and does not destroy the object.
\<close>

theorem degenerate_cut_returns_null:
  assumes "allTriangles (strictlyAbove n wp ps) ixs \<or> allTriangles (strictlyBelow n wp ps) ixs"
  shows "\<exists>h. processTriangles n wp ps ns ts ixs emptyHulls = Inr h \<and>
           (if allTriangles (strictlyAbove n wp ps) ixs
            then upperVertices h = map (\<lambda>i. getVertexData i ps ns ts) ixs \<and> lowerVertices h = []
            else lowerVertices h = map (\<lambda>i. getVertexData i ps ns ts) ixs \<and> upperVertices h = []) \<and>
           upperContour h = [] \<and> lowerContour h = [] \<and>
           sliceMesh layout n wp (Some ps) ns ts (Some ixs) =
             Inr \<lparr>warnings = [emptyMeshWarning], sliceResult = None\<rparr> \<and>
           sliceCallback layout n
             \<lparr>positionWorld = wp,
              objectMesh = Some \<lparr>meshPositions = Some ps, meshNormals = ns,
                                 meshTexCoords = ts, meshIndices = Some ixs\<rparr>\<rparr> =
             Inr [ConsoleWarn emptyMeshWarning]"
proof (cases "allTriangles (strictlyAbove n wp ps) ixs")
  case True
  from processTriangles_all_upper [OF True, of ns ts emptyHulls]
  obtain h where h: "processTriangles n wp ps ns ts ixs emptyHulls = Inr h"
    and f: "upperVertices h = map (\<lambda>i. getVertexData i ps ns ts) ixs" "lowerVertices h = []"
      "upperContour h = []" "lowerContour h = []"
    by (auto simp: emptyHulls_def)
  from f(2) have "upperVertices h = [] \<or> lowerVertices h = []" ..
  from sliceMesh_empty_hull [OF h this, of layout] h f True show ?thesis
    by simp
next
  case False
  with assms have low: "allTriangles (strictlyBelow n wp ps) ixs" by simp
  from processTriangles_all_lower [OF low, of ns ts emptyHulls]
  obtain h where h: "processTriangles n wp ps ns ts ixs emptyHulls = Inr h"
    and f: "lowerVertices h = map (\<lambda>i. getVertexData i ps ns ts) ixs" "upperVertices h = []"
      "upperContour h = []" "lowerContour h = []"
    by (auto simp: emptyHulls_def)
  from f(2) have "upperVertices h = [] \<or> lowerVertices h = []" ..
  from sliceMesh_empty_hull [OF h this, of layout] h f False show ?thesis
    by simp
qed

theorem degenerate_cut_returns_null_witness:
  "allTriangles (strictlyAbove planeUp origin (attributeOf aboveTriangle)) [0, 1, 2] \<and>
   sliceMesh fullLayout planeUp origin (Some (attributeOf aboveTriangle)) None None
     (Some [0, 1, 2]) =
     Inr \<lparr>warnings = [emptyMeshWarning], sliceResult = None\<rparr> \<and>
   sliceCallback fullLayout planeUp
     \<lparr>positionWorld = origin,
      objectMesh = Some \<lparr>meshPositions = Some (attributeOf aboveTriangle), meshNormals = None,
                         meshTexCoords = None, meshIndices = Some [0, 1, 2]\<rparr>\<rparr> =
     Inr [ConsoleWarn emptyMeshWarning]"
proof -
  have a: "allTriangles (strictlyAbove planeUp origin (attributeOf aboveTriangle)) [0, 1, 2]"
    by (simp add: strictlyAbove_def planeUp_def origin_def attributeOf_def aboveTriangle_def)
  then have "allTriangles (strictlyAbove planeUp origin (attributeOf aboveTriangle)) [0, 1, 2] \<or>
      allTriangles (strictlyBelow planeUp origin (attributeOf aboveTriangle)) [0, 1, 2]" ..
  from degenerate_cut_returns_null [OF this, of None None fullLayout] a show ?thesis
    by blast
qed

subsection \<open>Optional attributes of the output\<close>

lemma carries_getVertexData:
  "carries (ns \<noteq> None) (ts \<noteq> None) (getVertexData i ps ns ts)"
  by (cases ns; cases ts) (simp_all add: carries_def getVertexData_def)

lemma carries_interpolateVertex:
  assumes "carries x y u" and "carries x y w"
  shows "carries x y (interpolateVertex u w t)"
  using assms
  by (cases "normal u"; cases "normal w"; cases "texCoord u"; cases "texCoord w")
     (auto simp: carries_def interpolateVertex_def)

lemma hullsCarry_addUpper:
  "hullsCarry x y h \<Longrightarrow> carries x y a \<Longrightarrow> carries x y b \<Longrightarrow> carries x y c
     \<Longrightarrow> hullsCarry x y (addUpper h a b c)"
  by (simp add: hullsCarry_def)

lemma hullsCarry_addLower:
  "hullsCarry x y h \<Longrightarrow> carries x y a \<Longrightarrow> carries x y b \<Longrightarrow> carries x y c
     \<Longrightarrow> hullsCarry x y (addLower h a b c)"
  by (simp add: hullsCarry_def)

lemma hullsCarry_pushContours:
  "hullsCarry x y h \<Longrightarrow> hullsCarry x y (pushContours h p q)"
  by (simp add: hullsCarry_def)

lemma hullsCarry_splitSorted:
  assumes "hullsCarry x y h" and "carries x y (sv a)" and "carries x y (sv b)"
    and "carries x y (sv c)"
  shows "hullsCarry x y (splitSorted a b c h)"
  unfolding splitSorted_def Let_def
  by (simp add: assms hullsCarry_addUpper hullsCarry_addLower hullsCarry_pushContours
      carries_interpolateVertex)

lemma hullsCarry_splitTriangle:
  assumes "hullsCarry x y h" and v: "carries x y v0" "carries x y v1" "carries x y v2"
  shows "hullsCarry x y (splitTriangle v0 v1 v2 d0 d1 d2 h i0 i1 i2)"
proof -
  obtain a b c where srt: "sort_key sd [\<lparr>sv = v0, sd = d0, si = i0\<rparr>,
        \<lparr>sv = v1, sd = d1, si = i1\<rparr>, \<lparr>sv = v2, sd = d2, si = i2\<rparr>] = [a, b, c]"
    and re: "isRearrangement (a, b, c) \<lparr>sv = v0, sd = d0, si = i0\<rparr>
        \<lparr>sv = v1, sd = d1, si = i1\<rparr> \<lparr>sv = v2, sd = d2, si = i2\<rparr>"
    unfolding isRearrangement_def by (rule sort3_obtain)
  from isRearrangement_sets [OF re]
  have "sv ` {a, b, c} = sv ` {\<lparr>sv = v0, sd = d0, si = i0\<rparr>,
        \<lparr>sv = v1, sd = d1, si = i1\<rparr>, \<lparr>sv = v2, sd = d2, si = i2\<rparr>}"
    by (rule arg_cong)
  then have eq: "{sv a, sv b, sv c} = {v0, v1, v2}"
    by simp
  have "sv a \<in> {sv a, sv b, sv c}" "sv b \<in> {sv a, sv b, sv c}" "sv c \<in> {sv a, sv b, sv c}"
    by simp_all
  then have "sv a \<in> {v0, v1, v2}" "sv b \<in> {v0, v1, v2}" "sv c \<in> {v0, v1, v2}"
    unfolding eq .
  with v have "carries x y (sv a)" "carries x y (sv b)" "carries x y (sv c)"
    by auto
  with assms(1) show ?thesis
    unfolding splitTriangle_sorted [OF srt] by (rule hullsCarry_splitSorted)
qed

lemma hullsCarry_processTriangle:
  assumes "hullsCarry x y h" and "\<And>i. carries x y (getVertexData i ps ns ts)"
  shows "hullsCarry x y (processTriangle n wp ps ns ts i0 i1 i2 h)"
  unfolding processTriangle_def Let_def
  by (simp add: assms hullsCarry_addUpper hullsCarry_addLower hullsCarry_splitTriangle
      split: topology.split)

lemma hullsCarry_processTriangles:
  "processTriangles n wp ps ns ts ixs h = Inr h' \<Longrightarrow> hullsCarry (ns \<noteq> None) (ts \<noteq> None) h
     \<Longrightarrow> hullsCarry (ns \<noteq> None) (ts \<noteq> None) h'"
proof (induction n wp ps ns ts ixs h rule: processTriangles.induct)
  case (1 n wp ps ns ts h)
  then show ?case by simp
next
  case (2 n wp ps ns ts i0 i1 i2 rest h)
  from 2(2) have "processTriangles n wp ps ns ts rest (processTriangle n wp ps ns ts i0 i1 i2 h) = Inr h'"
    by simp
  moreover from 2(3)
  have "hullsCarry (ns \<noteq> None) (ts \<noteq> None) (processTriangle n wp ps ns ts i0 i1 i2 h)"
    by (rule hullsCarry_processTriangle) (rule carries_getVertexData)
  ultimately show ?case by (rule 2(1))
next
  case (3 n wp ps ns ts i0 h)
  then show ?case by simp
next
  case (4 n wp ps ns ts i0 i1 h)
  then show ?case by simp
qed

lemma carries_capVertex: "carries True True (capVertex pos capNormal)"
  unfolding carries_def capVertex_def by simp

lemma carries_capVertices: "list_all (carries True True) (capVertices n contour isUpper)"
  by (simp add: capVertices_def list_all_iff carries_capVertex)

lemma generateCap_vertices:
  "fst (generateCap n (vs, ixs) contour isUpper) = vs @ capVertices n contour isUpper"
proof (cases "length contour < 3 \<or> length (dedupContour contour) < 3")
  case True
  then show ?thesis
    by (auto simp: generateCap_def capVertices_def Let_def)
next
  case False
  have "map (\<lambda>i. capVertex (cposition (dedupContour contour ! i)) (capNormalOf n isUpper))
          [0..<length (dedupContour contour)] =
        map (\<lambda>pt. capVertex (cposition pt) (capNormalOf n isUpper)) (dedupContour contour)"
    by (rule nth_equalityI) simp_all
  with False show ?thesis
    by (simp add: generateCap_def capVertices_def Let_def fold_push_one)
qed

lemma sliceMeshArrays_Some:
  assumes "sliceMeshArrays n wp positions normals texCoords indices0 = Inr out"
    and "sliceResult out = Some (U, L)"
  obtains ps ixs h where "positions = Some ps" and "indices0 = Some ixs"
    and "processTriangles n wp ps normals texCoords ixs emptyHulls = Inr h"
    and "upperVertices h \<noteq> []" and "lowerVertices h \<noteq> []"
    and "warnings out = []"
    and "hullVertices U = fst (generateCap n (upperVertices h, upperIndices h) (upperContour h) True)"
    and "hullVertices L = fst (generateCap n (lowerVertices h, lowerIndices h) (lowerContour h) False)"
  using assms unfolding sliceMeshArrays_def
  by (auto split: option.splits sum.splits if_splits prod.splits)

lemma carries_weaken:
  assumes "list_all (carries x y) pre" and "list_all (carries True True) cap"
  shows "x \<longrightarrow> list_all (\<lambda>v. normal v \<noteq> None) (pre @ cap)"
    and "y \<longrightarrow> list_all (\<lambda>v. texCoord v \<noteq> None) (pre @ cap)"
  using assms by (auto simp: list_all_iff carries_def)

lemma sliceMesh_of_arrays:
  assumes "sliceMeshArrays n wp positions normals texCoords indices0 = Inr out"
    and "sliceResult out = Some (U, L)"
  shows "sliceMesh layout n wp positions normals texCoords indices0 =
           Inr \<lparr>warnings = warnings out,
                sliceResult = Some (createMeshObject layout (hullVertices U) (hullIndices U),
                                    createMeshObject layout (hullVertices L) (hullIndices L))\<rparr>"
  using assms by (simp add: sliceMesh_def)

lemma tent_sliced:
  "\<exists>U L. sliceMeshArrays planeUp origin (Some (attributeOf tentPositions))
            (Some (attributeOf tentNormals)) (Some (attributeOf tentTexCoords))
            (Some tentIndices) = Inr \<lparr>warnings = [], sliceResult = Some (U, L)\<rparr> \<and>
          length (hullVertices U) = 10 \<and> length (hullVertices L) = 16"
  by (simp add: sliceMeshArrays_def processTriangle_def classify_def planeUp_def origin_def
      attributeOf_def tentPositions_def tentIndices_def tentNormals_def tentTexCoords_def
      getVertexData_def emptyHulls_def
      splitTriangle_def splitSorted_def interpolateVertex_def Let_def generateCap_def
      dedupContour_def isDuplicateOf_def epsilon_def capVertex_def)

text \<open>
  Claim C9 says that every output hull is attribute consistent for any input mesh. For the
  tent without normals and texture coordinates the vertex array of the upper hull after
  slicing and capping has ten vertices: the six of the split triangles have no normal,
  the four of the cap have the cap normal.
\<close>

theorem mixed_attributes_after_capping:
  "length (upperHullVertices
      (sliceMeshArrays planeUp origin (Some (attributeOf tentPositions)) None None
         (Some tentIndices))) = 10 \<and>
   normal (hd (upperHullVertices
      (sliceMeshArrays planeUp origin (Some (attributeOf tentPositions)) None None
         (Some tentIndices)))) = None \<and>
   normal (last (upperHullVertices
      (sliceMeshArrays planeUp origin (Some (attributeOf tentPositions)) None None
         (Some tentIndices)))) = Some (0, 1, 0) \<and>
   \<not> attributeConsistent
       (upperHullVertices
          (sliceMeshArrays planeUp origin (Some (attributeOf tentPositions)) None None
             (Some tentIndices)))"
  by (simp add: sliceMeshArrays_def processTriangle_def classify_def planeUp_def origin_def
      attributeOf_def tentPositions_def tentIndices_def getVertexData_def emptyHulls_def
      splitTriangle_def splitSorted_def interpolateVertex_def Let_def generateCap_def
      dedupContour_def isDuplicateOf_def epsilon_def upperHullVertices_def
      attributeConsistent_def capVertex_def)

text \<open>
  Claim C9 as amended. After slicing and capping, the vertex array of each hull is the
  vertex array of the loop followed by the vertices of the cap. The vertices of the loop
  have a normal exactly when the input mesh has normals and a texture coordinate exactly
  when it has texture coordinates; the vertices of the cap have both. So when the input
  mesh has normals every vertex of the arrays has a normal, when it has texture
  coordinates every vertex has one, and with both the arrays are attribute consistent.
  \<open>sliceMesh\<close> returns the meshes that \<open>createMeshObject\<close> creates from these arrays, and
  \<open>createMeshObject\<close> writes, for the normal and for the texture coordinate attribute if
  the created mesh has it, a value for every vertex: the value of the vertex, or
  (0, 1, 0) respectively (0, 0) where the vertex has none.
\<close>

theorem output_attributes_follow_input:
  assumes "sliceMeshArrays n wp positions normals texCoords indices0 = Inr out"
    and "sliceResult out = Some (U, L)"
  shows "(\<exists>ps ixs h.
            positions = Some ps \<and> indices0 = Some ixs \<and>
            processTriangles n wp ps normals texCoords ixs emptyHulls = Inr h \<and>
            hullVertices U = upperVertices h @ capVertices n (upperContour h) True \<and>
            hullVertices L = lowerVertices h @ capVertices n (lowerContour h) False \<and>
            list_all (carries (normals \<noteq> None) (texCoords \<noteq> None)) (upperVertices h) \<and>
            list_all (carries (normals \<noteq> None) (texCoords \<noteq> None)) (lowerVertices h) \<and>
            list_all (carries True True) (capVertices n (upperContour h) True) \<and>
            list_all (carries True True) (capVertices n (lowerContour h) False)) \<and>
         (normals \<noteq> None \<longrightarrow>
            list_all (\<lambda>v. normal v \<noteq> None) (hullVertices U) \<and>
            list_all (\<lambda>v. normal v \<noteq> None) (hullVertices L)) \<and>
         (texCoords \<noteq> None \<longrightarrow>
            list_all (\<lambda>v. texCoord v \<noteq> None) (hullVertices U) \<and>
            list_all (\<lambda>v. texCoord v \<noteq> None) (hullVertices L)) \<and>
         (normals \<noteq> None \<and> texCoords \<noteq> None \<longrightarrow>
            attributeConsistent (hullVertices U) \<and> attributeConsistent (hullVertices L)) \<and>
         sliceMesh layout n wp positions normals texCoords indices0 =
           Inr \<lparr>warnings = [],
                sliceResult = Some (createMeshObject layout (hullVertices U) (hullIndices U),
                                    createMeshObject layout (hullVertices L) (hullIndices L))\<rparr> \<and>
         vertexCount (createMeshObject layout vs js) = length vs \<and>
         normalData (createMeshObject layout vs js) =
           (if hasNormal layout
            then Some (map (\<lambda>v. case normal v of Some nrm \<Rightarrow> nrm | None \<Rightarrow> (0, 1, 0)) vs)
            else None) \<and>
         texCoordData (createMeshObject layout vs js) =
           (if hasTexCoord layout
            then Some (map (\<lambda>v. case texCoord v of Some uv \<Rightarrow> uv | None \<Rightarrow> (0, 0)) vs)
            else None)"
proof -
  from assms obtain ps ixs h where
    in1: "positions = Some ps" "indices0 = Some ixs"
    and loop: "processTriangles n wp ps normals texCoords ixs emptyHulls = Inr h"
    and w: "warnings out = []"
    and U: "hullVertices U =
        fst (generateCap n (upperVertices h, upperIndices h) (upperContour h) True)"
    and L: "hullVertices L =
        fst (generateCap n (lowerVertices h, lowerIndices h) (lowerContour h) False)"
    by (rule sliceMeshArrays_Some)
  have "hullsCarry (normals \<noteq> None) (texCoords \<noteq> None) emptyHulls"
    by (simp add: hullsCarry_def emptyHulls_def)
  with loop have "hullsCarry (normals \<noteq> None) (texCoords \<noteq> None) h"
    by (rule hullsCarry_processTriangles)
  then have pu: "list_all (carries (normals \<noteq> None) (texCoords \<noteq> None)) (upperVertices h)"
    and pl: "list_all (carries (normals \<noteq> None) (texCoords \<noteq> None)) (lowerVertices h)"
    by (simp_all add: hullsCarry_def)
  have cu: "hullVertices U = upperVertices h @ capVertices n (upperContour h) True"
    unfolding U by (rule generateCap_vertices)
  have cl: "hullVertices L = lowerVertices h @ capVertices n (lowerContour h) False"
    unfolding L by (rule generateCap_vertices)
  note ku = carries_capVertices [of n "upperContour h" True]
    and kl = carries_capVertices [of n "lowerContour h" False]
  note wu = carries_weaken [OF pu ku, folded cu]
    and wl = carries_weaken [OF pl kl, folded cl]
  have arrays: "\<exists>ps ixs h.
            positions = Some ps \<and> indices0 = Some ixs \<and>
            processTriangles n wp ps normals texCoords ixs emptyHulls = Inr h \<and>
            hullVertices U = upperVertices h @ capVertices n (upperContour h) True \<and>
            hullVertices L = lowerVertices h @ capVertices n (lowerContour h) False \<and>
            list_all (carries (normals \<noteq> None) (texCoords \<noteq> None)) (upperVertices h) \<and>
            list_all (carries (normals \<noteq> None) (texCoords \<noteq> None)) (lowerVertices h) \<and>
            list_all (carries True True) (capVertices n (upperContour h) True) \<and>
            list_all (carries True True) (capVertices n (lowerContour h) False)"
    using in1 loop cu cl pu pl ku kl by blast
  have nrm: "normals \<noteq> None \<longrightarrow>
            list_all (\<lambda>v. normal v \<noteq> None) (hullVertices U) \<and>
            list_all (\<lambda>v. normal v \<noteq> None) (hullVertices L)"
    using wu(1) wl(1) by blast
  have tex: "texCoords \<noteq> None \<longrightarrow>
            list_all (\<lambda>v. texCoord v \<noteq> None) (hullVertices U) \<and>
            list_all (\<lambda>v. texCoord v \<noteq> None) (hullVertices L)"
    using wu(2) wl(2) by blast
  have both: "normals \<noteq> None \<and> texCoords \<noteq> None \<longrightarrow>
            attributeConsistent (hullVertices U) \<and> attributeConsistent (hullVertices L)"
    using nrm tex unfolding attributeConsistent_def by blast
  have mesh: "sliceMesh layout n wp positions normals texCoords indices0 =
           Inr \<lparr>warnings = [],
                sliceResult = Some (createMeshObject layout (hullVertices U) (hullIndices U),
                                    createMeshObject layout (hullVertices L) (hullIndices L))\<rparr>"
    using sliceMesh_of_arrays [OF assms, of layout] by (simp add: w)
  have created: "vertexCount (createMeshObject layout vs js) = length vs"
    "normalData (createMeshObject layout vs js) =
           (if hasNormal layout
            then Some (map (\<lambda>v. case normal v of Some nrm \<Rightarrow> nrm | None \<Rightarrow> (0, 1, 0)) vs)
            else None)"
    "texCoordData (createMeshObject layout vs js) =
           (if hasTexCoord layout
            then Some (map (\<lambda>v. case texCoord v of Some uv \<Rightarrow> uv | None \<Rightarrow> (0, 0)) vs)
            else None)"
    by (simp_all add: createMeshObject_def)
  from arrays nrm tex both mesh created show ?thesis
    by (intro conjI)
qed

theorem output_attributes_follow_input_witness:
  "\<exists>out U L.
      sliceMeshArrays planeUp origin (Some (attributeOf tentPositions))
        (Some (attributeOf tentNormals)) (Some (attributeOf tentTexCoords))
        (Some tentIndices) = Inr out \<and>
      sliceResult out = Some (U, L) \<and>
      length (hullVertices U) = 10 \<and> length (hullVertices L) = 16 \<and>
      list_all (\<lambda>v. normal v \<noteq> None) (hullVertices U) \<and>
      list_all (\<lambda>v. normal v \<noteq> None) (hullVertices L) \<and>
      list_all (\<lambda>v. texCoord v \<noteq> None) (hullVertices U) \<and>
      list_all (\<lambda>v. texCoord v \<noteq> None) (hullVertices L) \<and>
      sliceMesh fullLayout planeUp origin (Some (attributeOf tentPositions))
        (Some (attributeOf tentNormals)) (Some (attributeOf tentTexCoords))
        (Some tentIndices) =
        Inr \<lparr>warnings = [],
             sliceResult = Some (createMeshObject fullLayout (hullVertices U) (hullIndices U),
                                 createMeshObject fullLayout (hullVertices L) (hullIndices L))\<rparr>"
proof -
  from tent_sliced obtain U L where
    s: "sliceMeshArrays planeUp origin (Some (attributeOf tentPositions))
            (Some (attributeOf tentNormals)) (Some (attributeOf tentTexCoords))
            (Some tentIndices) = Inr \<lparr>warnings = [], sliceResult = Some (U, L)\<rparr>"
    and len: "length (hullVertices U) = 10" "length (hullVertices L) = 16"
    by blast
  have r: "sliceResult \<lparr>warnings = [], sliceResult = Some (U, L)\<rparr> = Some (U, L)"
    by simp
  note t = output_attributes_follow_input [OF s r, where layout = fullLayout]
  from t have a: "list_all (\<lambda>v. normal v \<noteq> None) (hullVertices U)"
    "list_all (\<lambda>v. normal v \<noteq> None) (hullVertices L)"
    "list_all (\<lambda>v. texCoord v \<noteq> None) (hullVertices U)"
    "list_all (\<lambda>v. texCoord v \<noteq> None) (hullVertices L)"
    by simp_all
  from t have m: "sliceMesh fullLayout planeUp origin (Some (attributeOf tentPositions))
        (Some (attributeOf tentNormals)) (Some (attributeOf tentTexCoords))
        (Some tentIndices) =
        Inr \<lparr>warnings = [],
             sliceResult = Some (createMeshObject fullLayout (hullVertices U) (hullIndices U),
                                 createMeshObject fullLayout (hullVertices L) (hullIndices L))\<rparr>"
    by blast
  from s r len a m show ?thesis
    by (intro exI [of _ "\<lparr>warnings = [], sliceResult = Some (U, L)\<rparr>"] exI [of _ U]
        exI [of _ L] conjI)
qed

end
